theory Spec2Isabelle
  imports Main
begin

section \<open>Host strings and numbers\<close>

text \<open>
  Program text is taken to be ASCII: a JavaScript string is modelled as a \<^typ>\<open>string\<close>,
  one \<^typ>\<open>char\<close> per UTF-16 code unit. \<open>toUpperCase\<close> maps the letters a..z to A..Z and
  leaves every other character alone.
\<close>

definition upper_char :: "char \<Rightarrow> char" where
  "upper_char c =
     (case map_of (zip ''abcdefghijklmnopqrstuvwxyz'' ''ABCDEFGHIJKLMNOPQRSTUVWXYZ'') c of
        Some u \<Rightarrow> u
      | None \<Rightarrow> c)"

definition toUpperCase :: "string \<Rightarrow> string" where
  "toUpperCase t = map upper_char t"

text \<open>
  \<open>isNaN(Number(t))\<close> for a string \<open>t\<close> is decided by the text alone: the host's
  \<open>StringToNumber\<close> yields NaN exactly when \<open>t\<close>, with white space trimmed from both
  ends, is neither empty nor a \<open>StrNumericLiteral\<close> (a signed decimal literal with
  optional fraction and exponent, a signed \<open>Infinity\<close>, or an unsigned binary, octal or
  hexadecimal integer literal).
\<close>

definition isStrWhiteSpaceChar :: "char \<Rightarrow> bool" where
  "isStrWhiteSpaceChar c \<longleftrightarrow> c \<in> set [CHR 0x09, CHR 0x0A, CHR 0x0B, CHR 0x0C, CHR 0x0D, CHR 0x20]"

definition trim :: "string \<Rightarrow> string" where
  "trim t = rev (dropWhile isStrWhiteSpaceChar (rev (dropWhile isStrWhiteSpaceChar t)))"

definition isDecimalDigit :: "char \<Rightarrow> bool" where
  "isDecimalDigit c \<longleftrightarrow> c \<in> set ''0123456789''"

definition isDecimalDigits :: "string \<Rightarrow> bool" where
  "isDecimalDigits t \<longleftrightarrow> t \<noteq> [] \<and> list_all isDecimalDigit t"

definition isSignedInteger :: "string \<Rightarrow> bool" where
  "isSignedInteger t =
     (case t of
        [] \<Rightarrow> False
      | c # r \<Rightarrow> if c = CHR ''+'' \<or> c = CHR ''-'' then isDecimalDigits r else isDecimalDigits t)"

definition isExponentPartOpt :: "string \<Rightarrow> bool" where
  "isExponentPartOpt t =
     (case t of
        [] \<Rightarrow> True
      | c # r \<Rightarrow> (c = CHR ''e'' \<or> c = CHR ''E'') \<and> isSignedInteger r)"

definition isStrUnsignedDecimalLiteral :: "string \<Rightarrow> bool" where
  "isStrUnsignedDecimalLiteral t =
     (if t = ''Infinity'' then True
      else
        let ip = takeWhile isDecimalDigit t; r1 = dropWhile isDecimalDigit t in
        (case r1 of
           [] \<Rightarrow> ip \<noteq> []
         | c # r2 \<Rightarrow>
             if c = CHR ''.'' then
               let fp = takeWhile isDecimalDigit r2; r3 = dropWhile isDecimalDigit r2 in
               (ip \<noteq> [] \<or> fp \<noteq> []) \<and> isExponentPartOpt r3
             else ip \<noteq> [] \<and> isExponentPartOpt r1))"

definition isStrDecimalLiteral :: "string \<Rightarrow> bool" where
  "isStrDecimalLiteral t =
     (case t of
        [] \<Rightarrow> False
      | c # r \<Rightarrow>
          if c = CHR ''+'' \<or> c = CHR ''-'' then isStrUnsignedDecimalLiteral r
          else isStrUnsignedDecimalLiteral t)"

definition isNonDecimalIntegerLiteral :: "string \<Rightarrow> bool" where
  "isNonDecimalIntegerLiteral t =
     (case t of
        z # k # ds \<Rightarrow>
          z = CHR ''0'' \<and> ds \<noteq> [] \<and>
          (if k = CHR ''b'' \<or> k = CHR ''B'' then list_all (\<lambda>d. d \<in> set ''01'') ds
           else if k = CHR ''o'' \<or> k = CHR ''O'' then list_all (\<lambda>d. d \<in> set ''01234567'') ds
           else if k = CHR ''x'' \<or> k = CHR ''X'' then
             list_all (\<lambda>d. d \<in> set ''0123456789abcdefABCDEF'') ds
           else False)
      | _ \<Rightarrow> False)"

definition isStringNumericLiteral :: "string \<Rightarrow> bool" where
  "isStringNumericLiteral t =
     (let u = trim t in u = [] \<or> isStrDecimalLiteral u \<or> isNonDecimalIntegerLiteral u)"

definition isNaN_Number :: "string \<Rightarrow> bool" where
  "isNaN_Number t \<longleftrightarrow> \<not> isStringNumericLiteral t"

text \<open>Decimal rendering of an array length, as a template literal does it.\<close>

fun show_nat :: "nat \<Rightarrow> string" where
  "show_nat n =
     (if n < 10 then [''0123456789'' ! n]
      else show_nat (n div 10) @ [''0123456789'' ! (n mod 10)])"

declare show_nat.simps [simp del]

section \<open>Values\<close>

text \<open>
  The four kinds of value. The \<open>parent\<close> back-reference of the source is left out: it
  is only ever copied into new nodes and never read by a test or a branch. A \<open>Method\<close>
  holds its three nodes: the name atom (flag and text), the parameter list (flag and
  elements) and the body list (flag and elements). A \<open>Native\<close> holds the host function,
  here the tag of one of the natives the driver defines.
\<close>

datatype native =
    N_ADD | N_ATOM | N_CAR | N_CDR | N_CONS | N_DEF | N_DIV | N_EQ | N_EVAL | N_EXP
  | N_MULT | N_NEG | N_POS | N_PRINT | N_REVERSE | N_SQUARE | N_SET | N_SETQ | N_SUB

datatype Value =
    Atom bool string
  | List bool "Value list"
  | Method bool string bool "Value list" bool "Value list"
  | Native native

datatype error = SyntaxError string | Error string | TypeError

section \<open>The parser\<close>

text \<open>
  The parser's variables: the atom in progress, the pending quote bit, the open list
  and the finished statements. The open list with its chain of \<open>parent\<close> links is the
  stack \<open>list\<close>, innermost list first; each entry is the list's quote flag and the
  elements pushed to it so far. The source pushes a new list into its parent when it is
  opened and fills it afterwards through the shared reference; here the list is appended
  to its parent when it is closed, which gives the same element order since nothing else
  is pushed to the parent while the child is open. An atom is only ever in progress
  inside an open list; a step from a state without one keeps the atom on an opening
  parenthesis, as the source does.
\<close>

record pstate =
  atom :: "(bool \<times> string) option"
  escaped :: bool
  list :: "(bool \<times> Value list) list"
  statements :: "Value list"

definition push_atom :: "(bool \<times> string) option \<Rightarrow> Value list \<Rightarrow> Value list" where
  "push_atom a vs = (case a of None \<Rightarrow> vs | Some (e, t) \<Rightarrow> vs @ [Atom e t])"

definition parse_step :: "pstate \<Rightarrow> char \<Rightarrow> error + pstate" where
  "parse_step st cursor =
     (if cursor = CHR 0x27 then
        (if atom st \<noteq> None then Inl (SyntaxError ''Cannot escape in the middle of an atom.'')
         else Inr (st\<lparr>escaped := True\<rparr>))
      else if cursor = CHR ''('' then
        (case list st of
           [] \<Rightarrow> Inr (st\<lparr>list := [(escaped st, [])], escaped := False\<rparr>)
         | (pe, pvs) # up \<Rightarrow>
             Inr (st\<lparr>atom := None,
                     list := (escaped st, []) # (pe, push_atom (atom st) pvs) # up,
                     escaped := False\<rparr>))
      else if cursor = CHR '')'' then
        (case list st of
           [] \<Rightarrow> Inl (SyntaxError
                   ''Unexpected closing parenthesis. Perhaps you added an extra ')'?'')
         | (e, vs) # up \<Rightarrow>
             (case up of
                [] \<Rightarrow> Inr (st\<lparr>atom := None, list := [],
                              statements := statements st @ [List e (push_atom (atom st) vs)]\<rparr>)
              | (pe, pvs) # up' \<Rightarrow>
                  Inr (st\<lparr>atom := None,
                          list := (pe, pvs @ [List e (push_atom (atom st) vs)]) # up'\<rparr>)))
      else if cursor = CHR '' '' then
        (case atom st of
           None \<Rightarrow> Inr st
         | Some a \<Rightarrow>
             (case list st of
                [] \<Rightarrow> Inl (SyntaxError ''Cannot declare atom outside of a statement.'')
              | (e, vs) # up \<Rightarrow> Inr (st\<lparr>atom := None, list := (e, push_atom (Some a) vs) # up\<rparr>)))
      else
        (case atom st of
           None \<Rightarrow>
             (case list st of
                [] \<Rightarrow> Inl (SyntaxError ''Cannot declare atom outside of a statement.'')
              | (e, vs) # up \<Rightarrow> Inr (st\<lparr>atom := Some (escaped st \<or> e, [cursor]), escaped := False\<rparr>))
         | Some (ae, t) \<Rightarrow> Inr (st\<lparr>atom := Some (ae, t @ [cursor])\<rparr>)))"

fun parse_loop :: "pstate \<Rightarrow> string \<Rightarrow> error + pstate" where
  "parse_loop st [] = Inr st"
| "parse_loop st (cursor # program) =
     (case parse_step st cursor of
        Inl err \<Rightarrow> Inl err
      | Inr st' \<Rightarrow> parse_loop st' program)"

definition parse_init :: pstate where
  "parse_init = \<lparr>atom = None, escaped = False, list = [], statements = []\<rparr>"

definition parse :: "string \<Rightarrow> error + Value list" where
  "parse program =
     (case parse_loop parse_init program of
        Inl err \<Rightarrow> Inl err
      | Inr st \<Rightarrow>
          if list st \<noteq> [] then Inl (SyntaxError ''Unclosed statement. Perhaps you missed a ')'?'')
          else Inr (statements st))"

section \<open>Environment, output and results\<close>

text \<open>
  The state an evaluation runs in: the environment (\<open>Map<string, Value>\<close>, never
  iterated, so a map) and the text written to standard output so far. An evaluation
  either runs out of fuel (\<open>None\<close>: it has not returned), throws (the error, with the
  output written before it), or returns a result and the state it leaves behind.
\<close>

record state =
  memory :: "string \<rightharpoonup> Value"
  out :: string

type_synonym 'a res = "(error \<times> string + 'a \<times> state) option"

definition throw :: "error \<Rightarrow> state \<Rightarrow> 'a res" where
  "throw e s = Some (Inl (e, out s))"

definition ok :: "'a \<Rightarrow> state \<Rightarrow> 'a res" where
  "ok v s = Some (Inr (v, s))"

fun bind_res :: "'a res \<Rightarrow> ('a \<Rightarrow> state \<Rightarrow> 'b res) \<Rightarrow> 'b res" where
  "bind_res None f = None"
| "bind_res (Some (Inl e)) f = Some (Inl e)"
| "bind_res (Some (Inr (v, s))) f = f v s"

text \<open>
  The host's double-precision arithmetic and number formatting are not interpreted: they
  are the fields of a \<open>host\<close> record, over any carrier \<open>'f\<close> of numbers, together with
  the \<open>-useColor\<close> flag of the command line. \<open>toNumber\<close> is \<open>Number\<close> on a text that is
  not NaN, \<open>numToString\<close> is \<open>String\<close> on a number.
\<close>

record 'f host =
  flagUseColor :: bool
  toNumber :: "string \<Rightarrow> 'f"
  numToString :: "'f \<Rightarrow> string"
  fzero :: 'f
  fone :: 'f
  fadd :: "'f \<Rightarrow> 'f \<Rightarrow> 'f"
  fsub :: "'f \<Rightarrow> 'f \<Rightarrow> 'f"
  fmul :: "'f \<Rightarrow> 'f \<Rightarrow> 'f"
  fdiv :: "'f \<Rightarrow> 'f \<Rightarrow> 'f"
  fpow :: "'f \<Rightarrow> 'f \<Rightarrow> 'f"
  feq :: "'f \<Rightarrow> 'f \<Rightarrow> bool"
  flt :: "'f \<Rightarrow> 'f \<Rightarrow> bool"
  fge :: "'f \<Rightarrow> 'f \<Rightarrow> bool"

text \<open>
  \<open>Number(v.value)\<close> for a fetched value \<open>v\<close>, with \<open>None\<close> for NaN. The \<open>value\<close> field
  of an atom is its text. That of a list is an array, which the host turns into the
  texts of its elements joined by commas: the empty text for the empty list, which is
  the number zero, and a run of \<open>[object Object]\<close> otherwise, which is NaN. That of a
  method is an array of three objects and that of a native is a function: both NaN.
\<close>

definition Number_value :: "'f host \<Rightarrow> Value \<Rightarrow> 'f option" where
  "Number_value H v =
     (case v of
        Atom e t \<Rightarrow> if isNaN_Number t then None else Some (toNumber H t)
      | List e vs \<Rightarrow> if vs = [] then Some (toNumber H []) else None
      | Method ne nm pe ps be body \<Rightarrow> None
      | Native f \<Rightarrow> None)"

definition getNil :: "Value" where
  "getNil = List False []"

definition getTrue :: "Value" where
  "getTrue = Atom False ''TRUE''"

definition isTrue :: "Value \<Rightarrow> bool" where
  "isTrue parameter = (case parameter of Atom e t \<Rightarrow> toUpperCase t = ''TRUE'' | _ \<Rightarrow> False)"

definition isNil :: "Value \<Rightarrow> bool" where
  "isNil parameter = (case parameter of List e vs \<Rightarrow> vs = [] | _ \<Rightarrow> False)"

definition native_name :: "native \<Rightarrow> string" where
  "native_name f =
     (case f of
        N_ADD \<Rightarrow> ''ADD'' | N_ATOM \<Rightarrow> ''ATOM'' | N_CAR \<Rightarrow> ''CAR'' | N_CDR \<Rightarrow> ''CDR''
      | N_CONS \<Rightarrow> ''CONS'' | N_DEF \<Rightarrow> ''DEF'' | N_DIV \<Rightarrow> ''DIV'' | N_EQ \<Rightarrow> ''EQ''
      | N_EVAL \<Rightarrow> ''EVAL'' | N_EXP \<Rightarrow> ''EXP'' | N_MULT \<Rightarrow> ''MULT'' | N_NEG \<Rightarrow> ''NEG''
      | N_POS \<Rightarrow> ''POS'' | N_PRINT \<Rightarrow> ''PRINT'' | N_REVERSE \<Rightarrow> ''REVERSE''
      | N_SQUARE \<Rightarrow> ''SQUARE'' | N_SET \<Rightarrow> ''SET'' | N_SETQ \<Rightarrow> ''SETQ'' | N_SUB \<Rightarrow> ''SUB'')"

section \<open>The natives\<close>

text \<open>
  Each native is written against the evaluator it calls back into: \<open>F\<close> stands for
  \<open>Interpreter.fetch\<close>, \<open>X\<close> for \<open>Interpreter.execute\<close> and \<open>T\<close> for \<open>toString\<close>. The
  evaluator below ties the knot.
\<close>

type_synonym fetch_fn = "Value \<Rightarrow> state \<Rightarrow> Value res"
type_synonym execute_fn = "bool \<Rightarrow> Value list \<Rightarrow> state \<Rightarrow> Value res"
type_synonym toString_fn = "Value \<Rightarrow> bool \<Rightarrow> state \<Rightarrow> string res"

definition arity_error :: "string \<Rightarrow> string \<Rightarrow> nat \<Rightarrow> error" where
  "arity_error name expected n =
     Error (name @ '': Expected '' @ expected @ '', got '' @ show_nat n @ '' instead.'')"

fun ADD_loop :: "'f host \<Rightarrow> fetch_fn \<Rightarrow> Value list \<Rightarrow> 'f \<Rightarrow> state \<Rightarrow> 'f res" where
  "ADD_loop H F [] acc s = ok acc s"
| "ADD_loop H F (p # ps) acc s =
     bind_res (F p s) (\<lambda>v s'.
       case Number_value H v of
         None \<Rightarrow> throw (Error ''ADD: One or more parameters are not a number'') s'
       | Some x \<Rightarrow> ADD_loop H F ps (fadd H acc x) s')"

definition ADD :: "'f host \<Rightarrow> fetch_fn \<Rightarrow> Value list \<Rightarrow> state \<Rightarrow> Value res" where
  "ADD H F parameters s =
     (if length parameters < 2
      then throw (arity_error ''ADD'' ''2 or more arguments'' (length parameters)) s
      else bind_res (ADD_loop H F parameters (fzero H) s) (\<lambda>acc s'.
             ok (Atom False (numToString H acc)) s'))"

fun MULT_loop :: "'f host \<Rightarrow> fetch_fn \<Rightarrow> Value list \<Rightarrow> 'f \<Rightarrow> state \<Rightarrow> 'f res" where
  "MULT_loop H F [] acc s = ok acc s"
| "MULT_loop H F (p # ps) acc s =
     bind_res (F p s) (\<lambda>v s'.
       case Number_value H v of
         None \<Rightarrow> throw (Error ''MULT: One or more parameters are not a number'') s'
       | Some x \<Rightarrow> MULT_loop H F ps (fmul H acc x) s')"

definition MULT :: "'f host \<Rightarrow> fetch_fn \<Rightarrow> Value list \<Rightarrow> state \<Rightarrow> Value res" where
  "MULT H F parameters s =
     (if length parameters < 2
      then throw (arity_error ''MULT'' ''2 or more arguments'' (length parameters)) s
      else bind_res (MULT_loop H F parameters (fone H) s) (\<lambda>acc s'.
             ok (Atom False (numToString H acc)) s'))"

text \<open>
  The natives of two numeric operands share one shape: check the arity, fetch both
  operands, then test the first and the second for NaN, each with its own message.
\<close>

definition binary_numeric ::
  "'f host \<Rightarrow> fetch_fn \<Rightarrow> string \<Rightarrow> string \<Rightarrow> string \<Rightarrow> ('f \<Rightarrow> 'f \<Rightarrow> Value) \<Rightarrow>
   Value list \<Rightarrow> state \<Rightarrow> Value res" where
  "binary_numeric H F name first_msg second_msg result parameters s =
     (case parameters of
        [p0, p1] \<Rightarrow>
          bind_res (F p0 s) (\<lambda>v0 s0.
          bind_res (F p1 s0) (\<lambda>v1 s1.
            case Number_value H v0 of
              None \<Rightarrow> throw (Error first_msg) s1
            | Some x \<Rightarrow>
                (case Number_value H v1 of
                   None \<Rightarrow> throw (Error second_msg) s1
                 | Some y \<Rightarrow> ok (result x y) s1)))
      | _ \<Rightarrow> throw (arity_error name ''2 arguments'' (length parameters)) s)"

definition unary_numeric ::
  "'f host \<Rightarrow> fetch_fn \<Rightarrow> string \<Rightarrow> string \<Rightarrow> ('f \<Rightarrow> Value) \<Rightarrow>
   Value list \<Rightarrow> state \<Rightarrow> Value res" where
  "unary_numeric H F name msg result parameters s =
     (case parameters of
        [p0] \<Rightarrow>
          bind_res (F p0 s) (\<lambda>v0 s0.
            case Number_value H v0 of
              None \<Rightarrow> throw (Error msg) s0
            | Some x \<Rightarrow> ok (result x) s0)
      | _ \<Rightarrow> throw (arity_error name ''1 argument'' (length parameters)) s)"

definition DIV :: "'f host \<Rightarrow> fetch_fn \<Rightarrow> Value list \<Rightarrow> state \<Rightarrow> Value res" where
  "DIV H F = binary_numeric H F ''DIV'' ''DIV: Dividend is not a number''
     ''DIV: Divisor is not a number'' (\<lambda>x y. Atom False (numToString H (fdiv H x y)))"

definition EQ :: "'f host \<Rightarrow> fetch_fn \<Rightarrow> Value list \<Rightarrow> state \<Rightarrow> Value res" where
  "EQ H F = binary_numeric H F ''EQ'' ''EQ: Left-hand parameter is not a number''
     ''EQ: Right-hand parameter is not a number'' (\<lambda>x y. if feq H x y then getTrue else getNil)"

definition EXP :: "'f host \<Rightarrow> fetch_fn \<Rightarrow> Value list \<Rightarrow> state \<Rightarrow> Value res" where
  "EXP H F = binary_numeric H F ''EXP'' ''EXP: Base is not a number''
     ''EXP: Exponent is not a number'' (\<lambda>x y. Atom False (numToString H (fpow H x y)))"

definition SUB :: "'f host \<Rightarrow> fetch_fn \<Rightarrow> Value list \<Rightarrow> state \<Rightarrow> Value res" where
  "SUB H F = binary_numeric H F ''SUB'' ''SUB: Minuend is not a number''
     ''SUB: Subtrahend is not a number'' (\<lambda>x y. Atom False (numToString H (fsub H x y)))"

definition NEG :: "'f host \<Rightarrow> fetch_fn \<Rightarrow> Value list \<Rightarrow> state \<Rightarrow> Value res" where
  "NEG H F = unary_numeric H F ''NEG'' ''NEG: Parameter is not a number''
     (\<lambda>x. if flt H x (fzero H) then getTrue else getNil)"

definition POS :: "'f host \<Rightarrow> fetch_fn \<Rightarrow> Value list \<Rightarrow> state \<Rightarrow> Value res" where
  "POS H F = unary_numeric H F ''POS'' ''POS: Parameter is not a number''
     (\<lambda>x. if fge H x (fzero H) then getTrue else getNil)"

definition SQUARE :: "'f host \<Rightarrow> fetch_fn \<Rightarrow> Value list \<Rightarrow> state \<Rightarrow> Value res" where
  "SQUARE H F = unary_numeric H F ''SQUARE'' ''SQUARE: Parameter is not a number''
     (\<lambda>x. Atom False (numToString H (fmul H x x)))"

definition ATOM :: "fetch_fn \<Rightarrow> Value list \<Rightarrow> state \<Rightarrow> Value res" where
  "ATOM F parameters s =
     (case parameters of
        [p0] \<Rightarrow>
          bind_res (F p0 s) (\<lambda>v s'.
            ok (if (case v of Atom e t \<Rightarrow> True | _ \<Rightarrow> False) \<or> isTrue v \<or> isNil v
                then getTrue else getNil) s')
      | _ \<Rightarrow> throw (arity_error ''ATOM'' ''1 argument'' (length parameters)) s)"

text \<open>
  \<open>CAR\<close>, \<open>CDR\<close>, \<open>CONS\<close>, \<open>REVERSE\<close> and \<open>EVAL\<close> copy elements field by field
  (\<open>escaped\<close>, \<open>type\<close>, \<open>value\<close>, and a new \<open>parent\<close>): without the parent, the copy of
  an element is the element.
\<close>

definition CAR :: "fetch_fn \<Rightarrow> Value list \<Rightarrow> state \<Rightarrow> Value res" where
  "CAR F parameters s =
     (case parameters of
        [p0] \<Rightarrow>
          bind_res (F p0 s) (\<lambda>v s'.
            case v of
              List e (x # xs) \<Rightarrow> ok x s'
            | _ \<Rightarrow> throw (Error ''CAR: Parameter must be a non-NIL list.'') s')
      | _ \<Rightarrow> throw (arity_error ''CAR'' ''1 argument'' (length parameters)) s)"

definition CDR :: "fetch_fn \<Rightarrow> Value list \<Rightarrow> state \<Rightarrow> Value res" where
  "CDR F parameters s =
     (case parameters of
        [p0] \<Rightarrow>
          bind_res (F p0 s) (\<lambda>v s'.
            case v of
              List e (x # xs) \<Rightarrow> ok (List True xs) s'
            | _ \<Rightarrow> throw (Error ''CDR: Parameter must be a non-NIL list.'') s')
      | _ \<Rightarrow> throw (arity_error ''CDR'' ''1 argument'' (length parameters)) s)"

definition CONS :: "fetch_fn \<Rightarrow> Value list \<Rightarrow> state \<Rightarrow> Value res" where
  "CONS F parameters s =
     (case parameters of
        [p0, p1] \<Rightarrow>
          bind_res (F p0 s) (\<lambda>left s0.
          bind_res (F p1 s0) (\<lambda>right s1.
            case right of
              List e vs \<Rightarrow> ok (List True (left # vs)) s1
            | _ \<Rightarrow> throw (Error ''CONS: Parameter must be a list.'') s1))
      | _ \<Rightarrow> throw (arity_error ''CONS'' ''2 arguments'' (length parameters)) s)"

definition DEF :: "Value list \<Rightarrow> state \<Rightarrow> Value res" where
  "DEF parameters s =
     (case parameters of
        [methodName, methodParameters, methodDefinition] \<Rightarrow>
          (case methodName of
             Atom ne nm \<Rightarrow>
               if ne then throw (Error ''DEF: Illegal function name.'') s
               else
                 (case methodParameters of
                    List pe ps \<Rightarrow>
                      if pe \<or> length ps \<noteq> 1 \<or> (case ps of Atom e t # r \<Rightarrow> False | _ \<Rightarrow> True)
                      then throw (Error ''DEF: Illegal function arguments.'') s
                      else
                        (case methodDefinition of
                           List be body \<Rightarrow>
                             if be then throw (Error ''DEF: Illegal function definition.'') s
                             else
                               ok (Method ne nm pe ps be body)
                                  (s\<lparr>memory := (memory s)(toUpperCase nm \<mapsto>
                                                   Method ne nm pe ps be body)\<rparr>)
                         | _ \<Rightarrow> throw (Error ''DEF: Illegal function definition.'') s)
                  | _ \<Rightarrow> throw (Error ''DEF: Illegal function arguments.'') s)
           | _ \<Rightarrow> throw (Error ''DEF: Illegal function name.'') s)
      | _ \<Rightarrow> throw (arity_error ''DEF'' ''3 arguments'' (length parameters)) s)"

definition EVAL :: "fetch_fn \<Rightarrow> execute_fn \<Rightarrow> Value list \<Rightarrow> state \<Rightarrow> Value res" where
  "EVAL F X parameters s =
     (case parameters of
        [p0] \<Rightarrow>
          bind_res (F p0 s) (\<lambda>v s'.
            case v of
              List e vs \<Rightarrow> X False vs s'
            | _ \<Rightarrow> ok v s')
      | _ \<Rightarrow> throw (arity_error ''EVAL'' ''1 argument'' (length parameters)) s)"

fun PRINT_loop :: "'f host \<Rightarrow> toString_fn \<Rightarrow> Value list \<Rightarrow> state \<Rightarrow> unit res" where
  "PRINT_loop H T [] s = ok () s"
| "PRINT_loop H T (p # ps) s =
     bind_res (T p (flagUseColor H) s) (\<lambda>str s'.
       PRINT_loop H T ps (s'\<lparr>out := out s' @ str @ '' ''\<rparr>))"

definition PRINT :: "'f host \<Rightarrow> toString_fn \<Rightarrow> Value list \<Rightarrow> state \<Rightarrow> Value res" where
  "PRINT H T parameters s =
     bind_res (PRINT_loop H T parameters s) (\<lambda>u s'.
       ok getNil (s'\<lparr>out := out s' @ [CHR 0x0A]\<rparr>))"

definition REVERSE :: "fetch_fn \<Rightarrow> Value list \<Rightarrow> state \<Rightarrow> Value res" where
  "REVERSE F parameters s =
     (case parameters of
        [p0] \<Rightarrow>
          bind_res (F p0 s) (\<lambda>v s'.
            case v of
              List e vs \<Rightarrow> ok (List True (rev vs)) s'
            | _ \<Rightarrow> throw (Error ''REVERSE: Parameter must be a list.'') s')
      | _ \<Rightarrow> throw (arity_error ''REVERSE'' ''1 argument'' (length parameters)) s)"

definition SET :: "fetch_fn \<Rightarrow> Value list \<Rightarrow> state \<Rightarrow> Value res" where
  "SET F parameters s =
     (case parameters of
        [p0, p1] \<Rightarrow>
          bind_res (F p0 s) (\<lambda>key s0.
          bind_res (F p1 s0) (\<lambda>v s1.
            case key of
              Atom e t \<Rightarrow>
                if \<not> e \<or> isTrue key \<or> isNil key
                then throw (Error ''SET: Left-hand parameter is illegal.'') s1
                else ok v (s1\<lparr>memory := (memory s1)(toUpperCase t \<mapsto> v)\<rparr>)
            | _ \<Rightarrow> throw (Error ''SET: Left-hand parameter is illegal.'') s1))
      | _ \<Rightarrow> throw (arity_error ''SET'' ''2 arguments'' (length parameters)) s)"

definition SETQ :: "fetch_fn \<Rightarrow> Value list \<Rightarrow> state \<Rightarrow> Value res" where
  "SETQ F parameters s =
     (case parameters of
        [p0, p1] \<Rightarrow>
          bind_res (F p1 s) (\<lambda>v s1.
            case p0 of
              Atom e t \<Rightarrow>
                if e \<or> isTrue p0 \<or> isNil p0
                then throw (Error ''SETQ: Left-hand parameter is illegal.'') s1
                else ok v (s1\<lparr>memory := (memory s1)(toUpperCase t \<mapsto> v)\<rparr>)
            | _ \<Rightarrow> throw (Error ''SETQ: Left-hand parameter is illegal.'') s1)
      | _ \<Rightarrow> throw (arity_error ''SETQ'' ''2 arguments'' (length parameters)) s)"

text \<open>Calling the host function a \<open>Native\<close> value holds.\<close>

definition apply_native ::
  "'f host \<Rightarrow> fetch_fn \<Rightarrow> execute_fn \<Rightarrow> toString_fn \<Rightarrow> native \<Rightarrow>
   Value list \<Rightarrow> state \<Rightarrow> Value res" where
  "apply_native H F X T f parameters s =
     (case f of
        N_ADD \<Rightarrow> ADD H F parameters s
      | N_ATOM \<Rightarrow> ATOM F parameters s
      | N_CAR \<Rightarrow> CAR F parameters s
      | N_CDR \<Rightarrow> CDR F parameters s
      | N_CONS \<Rightarrow> CONS F parameters s
      | N_DEF \<Rightarrow> DEF parameters s
      | N_DIV \<Rightarrow> DIV H F parameters s
      | N_EQ \<Rightarrow> EQ H F parameters s
      | N_EVAL \<Rightarrow> EVAL F X parameters s
      | N_EXP \<Rightarrow> EXP H F parameters s
      | N_MULT \<Rightarrow> MULT H F parameters s
      | N_NEG \<Rightarrow> NEG H F parameters s
      | N_POS \<Rightarrow> POS H F parameters s
      | N_PRINT \<Rightarrow> PRINT H T parameters s
      | N_REVERSE \<Rightarrow> REVERSE F parameters s
      | N_SQUARE \<Rightarrow> SQUARE H F parameters s
      | N_SET \<Rightarrow> SET F parameters s
      | N_SETQ \<Rightarrow> SETQ F parameters s
      | N_SUB \<Rightarrow> SUB H F parameters s)"

section \<open>The evaluator\<close>

text \<open>
  The test \<open>/^C[AD]+R$/\<close> and the loop of the cadr family. The loop walks the letters
  between the first and the last from right to left; \<open>call_value\<close> is the call
  \<open>(...).value(result, memory)\<close> on whatever is bound to \<open>CAR\<close> or \<open>CDR\<close>, a host type
  error when that is not a native. A name that passes the test has a letter between
  its first and its last, so the loop runs and leaves one result; \<open>execute\<close> answers
  the case of no result, which the test excludes, with a type error as well.
\<close>

definition matches_cadr :: "string \<Rightarrow> bool" where
  "matches_cadr u =
     (case u of
        [] \<Rightarrow> False
      | c # r \<Rightarrow>
          c = CHR ''C'' \<and> 2 \<le> length r \<and> last r = CHR ''R'' \<and>
          list_all (\<lambda>x. x = CHR ''A'' \<or> x = CHR ''D'') (butlast r))"

definition call_value ::
  "(native \<Rightarrow> Value list \<Rightarrow> state \<Rightarrow> Value res) \<Rightarrow> Value \<Rightarrow> Value list \<Rightarrow> state \<Rightarrow> Value res"
  where
  "call_value ap callee parameters s =
     (case callee of Native f \<Rightarrow> ap f parameters s | _ \<Rightarrow> throw TypeError s)"

fun cadr_loop ::
  "(native \<Rightarrow> Value list \<Rightarrow> state \<Rightarrow> Value res) \<Rightarrow> Value \<Rightarrow> Value \<Rightarrow> string \<Rightarrow>
   Value list \<Rightarrow> state \<Rightarrow> Value list res" where
  "cadr_loop ap car cdr [] result s = ok result s"
| "cadr_loop ap car cdr (c # cs) result s =
     bind_res (call_value ap (if c = CHR ''A'' then car else cdr) result s) (\<lambda>v s'.
       cadr_loop ap car cdr cs [v] s')"

fun mapM_res :: "('a \<Rightarrow> state \<Rightarrow> 'b res) \<Rightarrow> 'a list \<Rightarrow> state \<Rightarrow> 'b list res" where
  "mapM_res f [] s = ok [] s"
| "mapM_res f (x # xs) s =
     bind_res (f x s) (\<lambda>y s'. bind_res (mapM_res f xs s') (\<lambda>ys s''. ok (y # ys) s''))"

fun join :: "string \<Rightarrow> string list \<Rightarrow> string" where
  "join sep [] = []"
| "join sep [x] = x"
| "join sep (x # y # ys) = x @ sep @ join sep (y # ys)"

definition colour :: "string \<Rightarrow> string \<Rightarrow> string" where
  "colour code t = CHR 0x1B # ''['' @ code @ ''m'' @ t @ CHR 0x1B # ''[0m''"

text \<open>
  \<open>fetch\<close>, \<open>execute\<close> and \<open>toString\<close> call each other without bound (a user function
  may call itself), so each takes fuel: every call spends one unit, and \<open>None\<close> says the
  fuel ran out before the call returned.

  In a method call the host evaluates \<open>new Map(memory)\<close> before the arguments of
  \<open>.set\<close>: the callee's environment is a copy of the caller's as it was when the call
  started, plus the binding of the parameter; what fetching the argument writes goes to
  the caller's environment only, and what the body writes goes to the copy only. The
  output is shared.
\<close>

fun fetch :: "'f host \<Rightarrow> nat \<Rightarrow> Value \<Rightarrow> state \<Rightarrow> Value res"
  and execute :: "'f host \<Rightarrow> nat \<Rightarrow> bool \<Rightarrow> Value list \<Rightarrow> state \<Rightarrow> Value res"
  and toString :: "'f host \<Rightarrow> nat \<Rightarrow> Value \<Rightarrow> bool \<Rightarrow> state \<Rightarrow> string res"
  where
  "fetch H 0 parameter s = None"
| "fetch H (Suc n) parameter s =
     (case parameter of
        Atom e t \<Rightarrow>
          if \<not> e \<and> toUpperCase t \<noteq> ''TRUE'' \<and> toUpperCase t \<noteq> ''NIL'' \<and> isNaN_Number t then
            (case memory s (toUpperCase t) of
               None \<Rightarrow> throw (Error (''Unknown variable '' @ [CHR 0x27] @ t @ [CHR 0x27] @ ''.'')) s
             | Some variable \<Rightarrow> ok variable s)
          else if toUpperCase t = ''NIL'' then ok (List False []) s
          else ok parameter s
      | List e vs \<Rightarrow>
          if \<not> e \<and> vs \<noteq> [] then bind_res (execute H n e vs s) (\<lambda>r s'. fetch H n r s')
          else ok parameter s
      | _ \<Rightarrow> ok parameter s)"
| "execute H 0 e vs s = None"
| "execute H (Suc n) e vs s =
     (if e \<or> vs = [] then ok (List e vs) s
      else
        (case hd vs of
           List he hvs \<Rightarrow> throw (Error ''A function call cannot be a list.'') s
         | Atom he methodName \<Rightarrow>
             (case memory s (toUpperCase methodName) of
                None \<Rightarrow>
                  if matches_cadr (toUpperCase methodName) then
                    (case (memory s ''CAR'', memory s ''CDR'') of
                       (Some car, Some cdr) \<Rightarrow>
                         bind_res
                           (cadr_loop (apply_native H (fetch H n) (execute H n) (toString H n))
                              car cdr (rev (butlast (tl methodName))) (tl vs) s)
                           (\<lambda>result s'.
                              case result of r # rs \<Rightarrow> ok r s' | [] \<Rightarrow> throw TypeError s')
                     | _ \<Rightarrow> throw (Error ''CAR or CDR not defined natively.'') s)
                  else
                    throw (Error (''Unknown function call '' @ [CHR 0x27] @ methodName @
                                  [CHR 0x27] @ ''.'')) s
              | Some (Native f) \<Rightarrow>
                  apply_native H (fetch H n) (execute H n) (toString H n) f (tl vs) s
              | Some (Method ne nm pe ps be body) \<Rightarrow>
                  (case tl vs of
                     [] \<Rightarrow> throw (Error ''A non-native function call must contain an argument.'') s
                   | a # rest \<Rightarrow>
                       (case ps of
                          Atom ae p # ps' \<Rightarrow>
                            bind_res (fetch H n a s) (\<lambda>v s1.
                            bind_res
                              (execute H n be body
                                 (s1\<lparr>memory := (memory s)(toUpperCase p \<mapsto> v)\<rparr>))
                              (\<lambda>r s2. ok r (s2\<lparr>memory := memory s1\<rparr>)))
                        | _ \<Rightarrow> throw TypeError s))
              | Some _ \<Rightarrow>
                  throw (Error (''Illegal function call '' @ [CHR 0x27] @ methodName @
                                [CHR 0x27] @ ''.'')) s)
         | _ \<Rightarrow> throw TypeError s))"
| "toString H 0 parameter useColor s = None"
| "toString H (Suc n) parameter useColor s =
     bind_res (fetch H n parameter s) (\<lambda>v s1.
       case v of
         Atom e t \<Rightarrow>
           ok (if useColor then
                 (if isTrue v \<or> \<not> isNaN_Number t then colour ''93'' t
                  else if isNil v then colour ''90'' t
                  else colour ''32'' t)
               else t) s1
       | List e vs \<Rightarrow>
           if vs = [] then ok (if useColor then colour ''90'' ''NIL'' else ''NIL'') s1
           else if e then
             bind_res (mapM_res (\<lambda>element. toString H n element useColor) vs s1) (\<lambda>strs s2.
               ok (''( '' @ join '' '' strs @ '' )'') s2)
           else
             bind_res (execute H n e vs s1) (\<lambda>r s2. toString H n r False s2)
       | Method ne nm pe ps be body \<Rightarrow>
           ok (if useColor then colour ''96'' (''<Function: '' @ nm @ ''>'')
               else ''<Function: '' @ nm @ ''>'') s1
       | Native f \<Rightarrow>
           ok (if useColor then colour ''96'' (''<Native: '' @ native_name f @ ''>'')
               else ''<Native: '' @ native_name f @ ''>'') s1)"

section \<open>The driver's environment\<close>

text \<open>The environment after the driver's calls of \<open>defineNative\<close>, with nothing printed.\<close>

definition initial_memory :: "string \<rightharpoonup> Value" where
  "initial_memory =
     [''ADD'' \<mapsto> Native N_ADD, ''+'' \<mapsto> Native N_ADD, ''ATOM'' \<mapsto> Native N_ATOM,
      ''CAR'' \<mapsto> Native N_CAR, ''CDR'' \<mapsto> Native N_CDR, ''CONS'' \<mapsto> Native N_CONS,
      ''DEF'' \<mapsto> Native N_DEF, ''EQ'' \<mapsto> Native N_EQ, ''EVAL'' \<mapsto> Native N_EVAL,
      ''EXP'' \<mapsto> Native N_EXP, ''DIV'' \<mapsto> Native N_DIV, ''/'' \<mapsto> Native N_DIV,
      ''MULT'' \<mapsto> Native N_MULT, ''*'' \<mapsto> Native N_MULT, ''NEG'' \<mapsto> Native N_NEG,
      ''POS'' \<mapsto> Native N_POS, ''PRINT'' \<mapsto> Native N_PRINT,
      ''REVERSE'' \<mapsto> Native N_REVERSE, ''SUB'' \<mapsto> Native N_SUB, ''-'' \<mapsto> Native N_SUB,
      ''SQUARE'' \<mapsto> Native N_SQUARE, ''SET'' \<mapsto> Native N_SET, ''SETQ'' \<mapsto> Native N_SETQ]"

definition initial_state :: state where
  "initial_state = \<lparr>memory = initial_memory, out = []\<rparr>"

text \<open>
  A host with a single number, for running examples in which no arithmetic result is
  looked at.
\<close>

definition example_host :: "unit host" where
  "example_host =
     \<lparr>flagUseColor = False, toNumber = (\<lambda>t. ()), numToString = (\<lambda>x. ''0''),
      fzero = (), fone = (), fadd = (\<lambda>x y. ()), fsub = (\<lambda>x y. ()), fmul = (\<lambda>x y. ()),
      fdiv = (\<lambda>x y. ()), fpow = (\<lambda>x y. ()), feq = (\<lambda>x y. True), flt = (\<lambda>x y. False),
      fge = (\<lambda>x y. True)\<rparr>"

section \<open>Predicates on parse trees and parser states\<close>

text \<open>
  \<open>quoted_atoms v\<close>: in every list of the tree \<open>v\<close> that carries the quote flag, the
  atoms that are its direct elements carry it too.
\<close>

fun quoted_atoms :: "Value \<Rightarrow> bool" where
  "quoted_atoms (List e vs) =
     list_all (\<lambda>v. case v of Atom ae t \<Rightarrow> e \<longrightarrow> ae | _ \<Rightarrow> quoted_atoms v) vs"
| "quoted_atoms v = True"

text \<open>
  \<open>explicit_quotes pe v\<close> counts the nodes of \<open>v\<close> whose flag cannot have come from the
  enclosing list (whose flag is \<open>pe\<close>): the quoted lists, and the quoted atoms that sit
  in an unquoted list.
\<close>

fun explicit_quotes :: "bool \<Rightarrow> Value \<Rightarrow> nat" where
  "explicit_quotes pe (Atom e t) = (if e \<and> \<not> pe then 1 else 0)"
| "explicit_quotes pe (List e vs) = (if e then 1 else 0) + sum_list (map (explicit_quotes e) vs)"
| "explicit_quotes pe v = 0"

definition parse_inv :: "pstate \<Rightarrow> bool" where
  "parse_inv st \<longleftrightarrow>
     list_all quoted_atoms (statements st) \<and>
     list_all (\<lambda>(e, vs). quoted_atoms (List e vs)) (list st) \<and>
     (case atom st of
        None \<Rightarrow> True
      | Some (ae, t) \<Rightarrow> (case list st of [] \<Rightarrow> False | (e, vs) # up \<Rightarrow> e \<longrightarrow> ae))"

definition pending_quotes :: "pstate \<Rightarrow> nat" where
  "pending_quotes st =
     sum_list (map (explicit_quotes False) (statements st)) +
     sum_list (map (\<lambda>(e, vs). explicit_quotes False (List e vs)) (list st)) +
     (case atom st of
        None \<Rightarrow> 0
      | Some (ae, t) \<Rightarrow> (case list st of [] \<Rightarrow> 0 | (e, vs) # up \<Rightarrow> if ae \<and> \<not> e then 1 else 0)) +
     (if escaped st then 1 else 0)"

definition atom_in_list :: "pstate \<Rightarrow> bool" where
  "atom_in_list st \<longleftrightarrow> (atom st \<noteq> None \<longrightarrow> list st \<noteq> [])"

text \<open>
  The characters of the \<open>default\<close> case of the parser's \<open>switch\<close>: those that start
  or continue an atom.
\<close>

definition is_atom_char :: "char \<Rightarrow> bool" where
  "is_atom_char c \<longleftrightarrow> c \<noteq> CHR 0x27 \<and> c \<noteq> CHR ''('' \<and> c \<noteq> CHR '')'' \<and> c \<noteq> CHR '' ''"

section \<open>Predicates on values and states\<close>

text \<open>
  \<open>self_evaluating v\<close>: \<open>fetch\<close> returns \<open>v\<close> as it is. These are the quoted atoms other
  than \<open>NIL\<close>, the atoms \<open>TRUE\<close> and the numeric atoms, the quoted lists, the empty
  lists, the methods and the natives.
\<close>

definition self_evaluating :: "Value \<Rightarrow> bool" where
  "self_evaluating v =
     (case v of
        Atom e t \<Rightarrow> toUpperCase t \<noteq> ''NIL'' \<and> (e \<or> toUpperCase t = ''TRUE'' \<or> \<not> isNaN_Number t)
      | List e vs \<Rightarrow> e \<or> vs = []
      | _ \<Rightarrow> True)"

text \<open>
  \<open>methods_ok v\<close>: every method inside \<open>v\<close> has an unquoted parameter list of exactly
  one element, an atom. \<open>state_ok s\<close>: every value bound in the environment is such.
\<close>

fun methods_ok :: "Value \<Rightarrow> bool" where
  "methods_ok (Atom e t) = True"
| "methods_ok (List e vs) = list_all methods_ok vs"
| "methods_ok (Method ne nm pe ps be body) =
     (\<not> pe \<and> (case ps of [Atom ae p] \<Rightarrow> True | _ \<Rightarrow> False) \<and> list_all methods_ok body)"
| "methods_ok (Native f) = True"

definition state_ok :: "state \<Rightarrow> bool" where
  "state_ok s \<longleftrightarrow> (\<forall>k v. memory s k = Some v \<longrightarrow> methods_ok v)"

text \<open>What the natives need of the evaluator they call back into, to keep \<open>methods_ok\<close>.\<close>

definition fetch_ok :: "fetch_fn \<Rightarrow> bool" where
  "fetch_ok F \<longleftrightarrow>
     (\<forall>p s v s'. methods_ok p \<longrightarrow> state_ok s \<longrightarrow> F p s = Some (Inr (v, s')) \<longrightarrow>
        methods_ok v \<and> state_ok s')"

definition execute_ok :: "execute_fn \<Rightarrow> bool" where
  "execute_ok X \<longleftrightarrow>
     (\<forall>e vs s v s'. list_all methods_ok vs \<longrightarrow> state_ok s \<longrightarrow> X e vs s = Some (Inr (v, s')) \<longrightarrow>
        methods_ok v \<and> state_ok s')"

definition toString_ok :: "toString_fn \<Rightarrow> bool" where
  "toString_ok T \<longleftrightarrow>
     (\<forall>p uc s str s'. methods_ok p \<longrightarrow> state_ok s \<longrightarrow> T p uc s = Some (Inr (str, s')) \<longrightarrow>
        state_ok s')"

definition parse_methods_ok :: "pstate \<Rightarrow> bool" where
  "parse_methods_ok st \<longleftrightarrow>
     list_all methods_ok (statements st) \<and> list_all (\<lambda>(e, vs). list_all methods_ok vs) (list st)"

text \<open>
  An environment for examples: the driver's, after \<open>(DEF F (N) (SETQ X (CAR N)))\<close>.
\<close>

definition example_state :: state where
  "example_state =
     \<lparr>memory = initial_memory(''F'' \<mapsto>
         Method False ''F'' False [Atom False ''N''] False
           [Atom False ''SETQ'', Atom False ''X'', List False [Atom False ''CAR'', Atom False ''N'']]),
      out = []\<rparr>"


section \<open>The parser: quote flags\<close>

lemma parse_step_cases:
  assumes "parse_step st c = Inr st'"
  obtains
    (quote) "c = CHR 0x27" "atom st = None" "st' = st\<lparr>escaped := True\<rparr>"
  | (open_top) "c = CHR ''(''" "list st = []"
      "st' = st\<lparr>list := [(escaped st, [])], escaped := False\<rparr>"
  | (open_nested) pe pvs up where "c = CHR ''(''" "list st = (pe, pvs) # up"
      "st' = st\<lparr>atom := None, list := (escaped st, []) # (pe, push_atom (atom st) pvs) # up,
                escaped := False\<rparr>"
  | (close_top) e vs where "c = CHR '')''" "list st = [(e, vs)]"
      "st' = st\<lparr>atom := None, list := [],
                statements := statements st @ [List e (push_atom (atom st) vs)]\<rparr>"
  | (close_nested) e vs pe pvs up where "c = CHR '')''" "list st = (e, vs) # (pe, pvs) # up"
      "st' = st\<lparr>atom := None, list := (pe, pvs @ [List e (push_atom (atom st) vs)]) # up\<rparr>"
  | (space_idle) "c = CHR '' ''" "atom st = None" "st' = st"
  | (space_atom) a e vs up where "c = CHR '' ''" "atom st = Some a" "list st = (e, vs) # up"
      "st' = st\<lparr>atom := None, list := (e, push_atom (Some a) vs) # up\<rparr>"
  | (start) e vs up where "c \<noteq> CHR 0x27" "c \<noteq> CHR ''(''" "c \<noteq> CHR '')''" "c \<noteq> CHR '' ''"
      "atom st = None" "list st = (e, vs) # up"
      "st' = st\<lparr>atom := Some (escaped st \<or> e, [c]), escaped := False\<rparr>"
  | (continue) ae t where "c \<noteq> CHR 0x27" "c \<noteq> CHR ''(''" "c \<noteq> CHR '')''" "c \<noteq> CHR '' ''"
      "atom st = Some (ae, t)" "st' = st\<lparr>atom := Some (ae, t @ [c])\<rparr>"
  using assms unfolding parse_step_def
  by (cases "atom st") (auto split: if_splits list.splits prod.splits)

lemma quoted_atoms_Nil: "quoted_atoms (List e [])"
  by simp

lemma quoted_atoms_snoc_atom:
  "quoted_atoms (List e (vs @ [Atom ae t])) \<longleftrightarrow> quoted_atoms (List e vs) \<and> (e \<longrightarrow> ae)"
  by simp

lemma quoted_atoms_snoc_list:
  "quoted_atoms (List e (vs @ [List e' vs'])) \<longleftrightarrow>
   quoted_atoms (List e vs) \<and> quoted_atoms (List e' vs')"
  by simp

lemmas quoted_atoms_snoc = quoted_atoms_Nil quoted_atoms_snoc_atom quoted_atoms_snoc_list

lemma parse_step_inv:
  assumes "parse_inv st" and "parse_step st c = Inr st'"
  shows "parse_inv st'"
  using assms
  unfolding parse_step_def parse_inv_def
  by (auto simp: push_atom_def quoted_atoms_snoc simp del: quoted_atoms.simps
           split: if_splits list.splits option.splits prod.splits)

lemma parse_loop_inv:
  "parse_inv st \<Longrightarrow> parse_loop st p = Inr st' \<Longrightarrow> parse_inv st'"
proof (induction p arbitrary: st)
  case Nil
  then show ?case by simp
next
  case (Cons c p)
  then show ?case
    by (auto split: sum.splits dest: parse_step_inv)
qed

lemma parse_step_atom_in_list:
  "atom_in_list st \<Longrightarrow> parse_step st c = Inr st' \<Longrightarrow> atom_in_list st'"
  unfolding parse_step_def atom_in_list_def
  by (auto split: if_splits list.splits option.splits prod.splits)

lemma parse_step_pending_quotes:
  assumes "atom_in_list st" and "parse_step st c = Inr st'"
  shows "pending_quotes st' \<le> pending_quotes st + (if c = CHR 0x27 then 1 else 0)"
  using assms(2)
proof (cases rule: parse_step_cases)
  case quote
  then show ?thesis by (simp add: pending_quotes_def)
next
  case open_top
  with assms(1) show ?thesis
    by (cases "atom st") (auto simp: pending_quotes_def atom_in_list_def)
next
  case (open_nested pe pvs up)
  then show ?thesis
    by (cases "atom st") (auto simp: pending_quotes_def push_atom_def)
next
  case (close_top e vs)
  then show ?thesis
    by (cases "atom st") (auto simp: pending_quotes_def push_atom_def)
next
  case (close_nested e vs pe pvs up)
  then show ?thesis
    by (cases "atom st") (auto simp: pending_quotes_def push_atom_def)
next
  case space_idle
  then show ?thesis by simp
next
  case (space_atom a e vs up)
  then show ?thesis
    by (cases a) (auto simp: pending_quotes_def push_atom_def)
next
  case (start e vs up)
  then show ?thesis by (auto simp: pending_quotes_def)
next
  case (continue ae t)
  then show ?thesis by (auto simp: pending_quotes_def split: list.splits)
qed

lemma parse_loop_pending_quotes:
  "atom_in_list st \<Longrightarrow> parse_loop st p = Inr st' \<Longrightarrow>
   pending_quotes st' \<le> pending_quotes st + count_list p (CHR 0x27)"
proof (induction p arbitrary: st)
  case Nil
  then show ?case by simp
next
  case (Cons c p)
  from Cons.prems obtain st1
    where s1: "parse_step st c = Inr st1" and l1: "parse_loop st1 p = Inr st'"
    by (auto split: sum.splits)
  have "atom_in_list st1" using Cons.prems(1) s1 by (rule parse_step_atom_in_list)
  from Cons.IH [OF this l1] parse_step_pending_quotes [OF Cons.prems(1) s1]
  show ?case by (auto split: if_splits)
qed

text \<open>
  C6, as the parser has it. In every parsed statement, an atom that is a direct element
  of a quoted list carries the quote flag. Every other flag comes from an apostrophe of
  its own: the quoted lists and the quoted atoms of unquoted lists are together no more
  than the apostrophes of the program. An atom inside an unquoted nested list of a
  quoted list gets nothing from the outer list.
\<close>

theorem parse_quote_flags:
  assumes "parse program = Inr sts"
  shows "list_all quoted_atoms sts \<and>
         sum_list (map (explicit_quotes False) sts) \<le> count_list program (CHR 0x27)"
proof -
  from assms obtain st where l: "parse_loop parse_init program = Inr st"
    and sts: "sts = statements st"
    by (auto simp: parse_def split: sum.splits if_splits)
  have "parse_inv parse_init" by (simp add: parse_inv_def parse_init_def)
  from parse_loop_inv [OF this l] have a: "list_all quoted_atoms sts"
    by (simp add: parse_inv_def sts)
  have "atom_in_list parse_init" by (simp add: atom_in_list_def parse_init_def)
  from parse_loop_pending_quotes [OF this l]
  have "pending_quotes st \<le> count_list program (CHR 0x27)"
    by (simp add: pending_quotes_def parse_init_def)
  then have "sum_list (map (explicit_quotes False) sts) \<le> count_list program (CHR 0x27)"
    by (simp add: pending_quotes_def sts)
  with a show ?thesis by simp
qed

theorem parse_quote_flags_witness:
  "parse ''(P '(A (B)) 'C)'' =
     Inr [List False [Atom False ''P'',
                      List True [Atom True ''A'', List False [Atom False ''B'']],
                      Atom True ''C'']] \<and>
   list_all quoted_atoms
     [List False [Atom False ''P'',
                  List True [Atom True ''A'', List False [Atom False ''B'']],
                  Atom True ''C'']] \<and>
   sum_list (map (explicit_quotes False)
     [List False [Atom False ''P'',
                  List True [Atom True ''A'', List False [Atom False ''B'']],
                  Atom True ''C'']]) \<le> count_list ''(P '(A (B)) 'C)'' (CHR 0x27)"
proof -
  have p: "parse ''(P '(A (B)) 'C)'' =
     Inr [List False [Atom False ''P'',
                      List True [Atom True ''A'', List False [Atom False ''B'']],
                      Atom True ''C'']]"
    by (simp add: parse_def parse_init_def parse_step_def push_atom_def)
  from p parse_quote_flags [OF p] show ?thesis by blast
qed

text \<open>
  The atom \<open>B\<close> of \<open>'(A (B))\<close> sits in an unquoted nested list of a quoted list, and is
  parsed without the quote flag.
\<close>

theorem parse_nested_atom_unquoted:
  "parse (CHR 0x27 # ''(A (B))'') = Inr [List True [Atom True ''A'', List False [Atom False ''B'']]]"
  by (simp add: parse_def parse_init_def parse_step_def push_atom_def)

section \<open>The parser: the pending quote bit\<close>

lemma parse_loop_spaces:
  "atom st = None \<Longrightarrow> parse_loop st (replicate k (CHR '' '') @ rest) = parse_loop st rest"
  by (induction k) (simp_all add: parse_step_def)

lemma parse_loop_atom_continue:
  "atom st = Some (ae, t0) \<Longrightarrow> list_all is_atom_char t \<Longrightarrow>
   parse_loop st (t @ rest) = parse_loop (st\<lparr>atom := Some (ae, t0 @ t)\<rparr>) rest"
proof (induction t arbitrary: st t0)
  case Nil
  then show ?case by (cases st) simp
next
  case (Cons d t)
  from Cons.prems have step: "parse_step st d = Inr (st\<lparr>atom := Some (ae, t0 @ [d])\<rparr>)"
    by (simp add: parse_step_def is_atom_char_def)
  have "atom (st\<lparr>atom := Some (ae, t0 @ [d])\<rparr>) = Some (ae, t0 @ [d])" by simp
  from Cons.IH [OF this] Cons.prems(2) step show ?case by simp
qed

lemma parse_loop_atom_start:
  assumes "atom st = None" and "list st = (e, vs) # up"
    and "t \<noteq> []" and "list_all is_atom_char t"
  shows "parse_loop st (t @ rest) =
         parse_loop (st\<lparr>atom := Some (escaped st \<or> e, t), escaped := False\<rparr>) rest"
proof -
  from assms(3) obtain d t' where t: "t = d # t'" by (cases t) auto
  with assms have step:
    "parse_step st d = Inr (st\<lparr>atom := Some (escaped st \<or> e, [d]), escaped := False\<rparr>)"
    by (simp add: parse_step_def is_atom_char_def)
  have "atom (st\<lparr>atom := Some (escaped st \<or> e, [d]), escaped := False\<rparr>) =
        Some (escaped st \<or> e, [d])" by simp
  from parse_loop_atom_continue [OF this, of t' rest] assms(4) t step
  show ?thesis by (cases st) simp
qed

lemma quote_close_open_nested:
  assumes "atom st = None" and "list st = (e, vs) # (pe, pvs) # up"
  shows "parse_loop st (CHR 0x27 # CHR '')'' # replicate k (CHR '' '') @ CHR ''('' # rest) =
         parse_loop (st\<lparr>list := (True, []) # (pe, pvs @ [List e vs]) # up, escaped := False\<rparr>) rest"
proof -
  define st1 where "st1 = st\<lparr>escaped := True, atom := None,
                 list := (pe, pvs @ [List e vs]) # up\<rparr>"
  have "parse_loop st (CHR 0x27 # CHR '')'' # replicate k (CHR '' '') @ CHR ''('' # rest) =
        parse_loop st1 (replicate k (CHR '' '') @ CHR ''('' # rest)"
    using assms by (simp add: parse_step_def push_atom_def st1_def)
  also have "\<dots> = parse_loop st1 (CHR ''('' # rest)"
    by (rule parse_loop_spaces) (simp add: st1_def)
  also have "\<dots> = parse_loop (st\<lparr>list := (True, []) # (pe, pvs @ [List e vs]) # up,
                     escaped := False\<rparr>) rest"
    using assms by (cases st) (simp add: parse_step_def st1_def push_atom_def)
  finally show ?thesis .
qed

lemma quote_close_open_top:
  assumes "atom st = None" and "list st = [(e, vs)]"
  shows "parse_loop st (CHR 0x27 # CHR '')'' # replicate k (CHR '' '') @ CHR ''('' # rest) =
      parse_loop (st\<lparr>list := [(True, [])], statements := statements st @ [List e vs],
                     escaped := False\<rparr>) rest"
proof -
  define st1 where "st1 = st\<lparr>escaped := True, atom := None, list := [],
                 statements := statements st @ [List e vs]\<rparr>"
  have "parse_loop st (CHR 0x27 # CHR '')'' # replicate k (CHR '' '') @ CHR ''('' # rest) =
        parse_loop st1 (replicate k (CHR '' '') @ CHR ''('' # rest)"
    using assms by (simp add: parse_step_def push_atom_def st1_def)
  also have "\<dots> = parse_loop st1 (CHR ''('' # rest)"
    by (rule parse_loop_spaces) (simp add: st1_def)
  also have "\<dots> = parse_loop (st\<lparr>list := [(True, [])], statements := statements st @ [List e vs],
                     escaped := False\<rparr>) rest"
    using assms by (cases st) (simp add: parse_step_def st1_def)
  finally show ?thesis .
qed

lemma quote_close_atom_nested:
  assumes "atom st = None" and "list st = (e, vs) # (pe, pvs) # up" and "is_atom_char d"
  shows "parse_loop st (CHR 0x27 # CHR '')'' # replicate k (CHR '' '') @ d # rest) =
      parse_loop (st\<lparr>atom := Some (True, [d]), list := (pe, pvs @ [List e vs]) # up,
                     escaped := False\<rparr>) rest"
proof -
  define st1 where "st1 = st\<lparr>escaped := True, atom := None,
                 list := (pe, pvs @ [List e vs]) # up\<rparr>"
  have "parse_loop st (CHR 0x27 # CHR '')'' # replicate k (CHR '' '') @ d # rest) =
        parse_loop st1 (replicate k (CHR '' '') @ d # rest)"
    using assms by (simp add: parse_step_def push_atom_def st1_def)
  also have "\<dots> = parse_loop st1 (d # rest)"
    by (rule parse_loop_spaces) (simp add: st1_def)
  also have "\<dots> = parse_loop (st\<lparr>atom := Some (True, [d]), list := (pe, pvs @ [List e vs]) # up,
                     escaped := False\<rparr>) rest"
    using assms by (cases st) (simp add: parse_step_def st1_def is_atom_char_def)
  finally show ?thesis .
qed

lemma quoted_list_closed_nested:
  assumes "atom st = None" and "list st = (e, vs) # (pe, pvs) # up"
    and "t \<noteq> []" and "list_all is_atom_char t"
  shows "parse_loop st (CHR 0x27 # CHR '')'' # replicate k (CHR '' '') @ CHR ''('' # t @ CHR '')'' # rest) =
         parse_loop (st\<lparr>list := (pe, pvs @ [List e vs, List True [Atom True t]]) # up,
                        escaped := False\<rparr>) rest"
proof -
  define st2 where "st2 = st\<lparr>list := (True, []) # (pe, pvs @ [List e vs]) # up, escaped := False\<rparr>"
  have a2: "atom st2 = None" and l2: "list st2 = (True, []) # (pe, pvs @ [List e vs]) # up"
    using assms(1) by (simp_all add: st2_def)
  have "parse_loop st (CHR 0x27 # CHR '')'' # replicate k (CHR '' '') @ CHR ''('' # t @ CHR '')'' # rest) =
        parse_loop st2 (t @ CHR '')'' # rest)"
    unfolding st2_def by (rule quote_close_open_nested [OF assms(1,2)])
  also have "\<dots> = parse_loop (st2\<lparr>atom := Some (escaped st2 \<or> True, t), escaped := False\<rparr>)
                       (CHR '')'' # rest)"
    by (rule parse_loop_atom_start [OF a2 l2 assms(3,4)])
  also have "\<dots> = parse_loop (st\<lparr>list := (pe, pvs @ [List e vs, List True [Atom True t]]) # up,
                        escaped := False\<rparr>) rest"
    using assms(1) by (cases st) (simp add: parse_step_def st2_def push_atom_def)
  finally show ?thesis .
qed

lemma quoted_list_closed_top:
  assumes "atom st = None" and "list st = [(e, vs)]"
    and "t \<noteq> []" and "list_all is_atom_char t"
  shows "parse_loop st (CHR 0x27 # CHR '')'' # replicate k (CHR '' '') @ CHR ''('' # t @ CHR '')'' # rest) =
         parse_loop (st\<lparr>list := [], statements := statements st @ [List e vs, List True [Atom True t]],
                        escaped := False\<rparr>) rest"
proof -
  define st2 where "st2 = st\<lparr>list := [(True, [])], statements := statements st @ [List e vs],
                     escaped := False\<rparr>"
  have a2: "atom st2 = None" and l2: "list st2 = (True, []) # []"
    using assms(1) by (simp_all add: st2_def)
  have "parse_loop st (CHR 0x27 # CHR '')'' # replicate k (CHR '' '') @ CHR ''('' # t @ CHR '')'' # rest) =
        parse_loop st2 (t @ CHR '')'' # rest)"
    unfolding st2_def by (rule quote_close_open_top [OF assms(1,2)])
  also have "\<dots> = parse_loop (st2\<lparr>atom := Some (escaped st2 \<or> True, t), escaped := False\<rparr>)
                       (CHR '')'' # rest)"
    by (rule parse_loop_atom_start [OF a2 l2 assms(3,4)])
  also have "\<dots> = parse_loop (st\<lparr>list := [],
                        statements := statements st @ [List e vs, List True [Atom True t]],
                        escaped := False\<rparr>) rest"
    using assms(1) by (cases st) (simp add: parse_step_def st2_def push_atom_def)
  finally show ?thesis .
qed

lemma parse_step_open:
  assumes "parse_step st (CHR ''('') = Inr st'"
  shows "list st' =
           (escaped st, []) #
           (case list st of [] \<Rightarrow> [] | (pe, pvs) # up \<Rightarrow> (pe, push_atom (atom st) pvs) # up)"
  using assms by (auto simp: parse_step_def split: list.splits)

lemma parse_step_atom_start:
  assumes "atom st = None" and "is_atom_char d" and "parse_step st d = Inr st'"
  shows "\<exists>e vs up. list st = (e, vs) # up \<and> list st' = list st \<and>
           atom st' = Some (escaped st \<or> e, [d])"
  using assms by (auto simp: parse_step_def is_atom_char_def split: list.splits)


text \<open>
  C10. A step that succeeds sets the pending quote bit on an apostrophe, clears it on an
  opening parenthesis and on the first character of an atom, and leaves it as it was on
  every other character, a space and a closing parenthesis among them. The list that an
  opening parenthesis starts, at the top level or inside another list, takes the pending
  bit as its quote flag, and the atom that starts takes the pending bit or the flag of
  its list. So after an apostrophe, a closing parenthesis and any number of spaces, the
  list opened next is a quoted one and so are its atoms, whether the parenthesis closed
  a top-level statement (the quoted list is then the next statement) or a nested list
  (the quoted list is then the next element of the parent), and an atom that starts next
  in the parent is a quoted one.
\<close>

theorem pending_quote_bit:
  "(parse_step st c = Inr st' \<longrightarrow>
      escaped st' =
        (if c = CHR 0x27 then True
         else if c = CHR ''('' \<or> (c \<noteq> CHR '')'' \<and> c \<noteq> CHR '' '' \<and> atom st = None) then False
         else escaped st)) \<and>
   (atom st = None \<and> list st = [(e, vs)] \<longrightarrow>
      parse_loop st (CHR 0x27 # CHR '')'' # replicate k (CHR '' '') @ CHR ''('' # rest) =
      parse_loop (st\<lparr>list := [(True, [])], statements := statements st @ [List e vs],
                     escaped := False\<rparr>) rest) \<and>
   (atom st = None \<and> list st = (e, vs) # (pe, pvs) # up \<and>
    d \<noteq> CHR 0x27 \<and> d \<noteq> CHR ''('' \<and> d \<noteq> CHR '')'' \<and> d \<noteq> CHR '' '' \<longrightarrow>
      parse_loop st (CHR 0x27 # CHR '')'' # replicate k (CHR '' '') @ d # rest) =
      parse_loop (st\<lparr>atom := Some (True, [d]), list := (pe, pvs @ [List e vs]) # up,
                     escaped := False\<rparr>) rest) \<and>
   (parse_step st (CHR ''('') = Inr st2 \<longrightarrow>
      list st2 =
        (escaped st, []) #
        (case list st of [] \<Rightarrow> [] | (qe, qvs) # below \<Rightarrow> (qe, push_atom (atom st) qvs) # below)) \<and>
   (atom st = None \<and> is_atom_char d2 \<and> parse_step st d2 = Inr st3 \<longrightarrow>
      (\<exists>le lvs below. list st = (le, lvs) # below \<and> list st3 = list st \<and>
         atom st3 = Some (escaped st \<or> le, [d2]))) \<and>
   (atom st = None \<and> list st = (e, vs) # (pe, pvs) # up \<longrightarrow>
      parse_loop st (CHR 0x27 # CHR '')'' # replicate k (CHR '' '') @ CHR ''('' # rest) =
      parse_loop (st\<lparr>list := (True, []) # (pe, pvs @ [List e vs]) # up, escaped := False\<rparr>) rest) \<and>
   (atom st = None \<and> list st = (e, vs) # (pe, pvs) # up \<and> t \<noteq> [] \<and> list_all is_atom_char t \<longrightarrow>
      parse_loop st
        (CHR 0x27 # CHR '')'' # replicate k (CHR '' '') @ CHR ''('' # t @ CHR '')'' # rest) =
      parse_loop (st\<lparr>list := (pe, pvs @ [List e vs, List True [Atom True t]]) # up,
                     escaped := False\<rparr>) rest) \<and>
   (atom st = None \<and> list st = [(e, vs)] \<and> t \<noteq> [] \<and> list_all is_atom_char t \<longrightarrow>
      parse_loop st
        (CHR 0x27 # CHR '')'' # replicate k (CHR '' '') @ CHR ''('' # t @ CHR '')'' # rest) =
      parse_loop (st\<lparr>list := [],
                     statements := statements st @ [List e vs, List True [Atom True t]],
                     escaped := False\<rparr>) rest)"
proof (intro conjI impI)
  assume "parse_step st c = Inr st'"
  then show "escaped st' =
        (if c = CHR 0x27 then True
         else if c = CHR ''('' \<or> (c \<noteq> CHR '')'' \<and> c \<noteq> CHR '' '' \<and> atom st = None) then False
         else escaped st)"
    unfolding parse_step_def
    by (cases "atom st") (auto split: if_splits list.splits prod.splits)
next
  assume "atom st = None \<and> list st = [(e, vs)]"
  note a = this
  show "parse_loop st (CHR 0x27 # CHR '')'' # replicate k (CHR '' '') @ CHR ''('' # rest) =
      parse_loop (st\<lparr>list := [(True, [])], statements := statements st @ [List e vs],
                     escaped := False\<rparr>) rest"
    by (rule quote_close_open_top) (use a in simp_all)
next
  assume "atom st = None \<and> list st = (e, vs) # (pe, pvs) # up \<and>
    d \<noteq> CHR 0x27 \<and> d \<noteq> CHR ''('' \<and> d \<noteq> CHR '')'' \<and> d \<noteq> CHR '' ''"
  note a = this
  show "parse_loop st (CHR 0x27 # CHR '')'' # replicate k (CHR '' '') @ d # rest) =
      parse_loop (st\<lparr>atom := Some (True, [d]), list := (pe, pvs @ [List e vs]) # up,
                     escaped := False\<rparr>) rest"
    by (rule quote_close_atom_nested) (use a in \<open>simp_all add: is_atom_char_def\<close>)
next
  assume "parse_step st (CHR ''('') = Inr st2"
  then show "list st2 =
        (escaped st, []) #
        (case list st of [] \<Rightarrow> [] | (qe, qvs) # below \<Rightarrow> (qe, push_atom (atom st) qvs) # below)"
    by (rule parse_step_open)
next
  assume "atom st = None \<and> is_atom_char d2 \<and> parse_step st d2 = Inr st3"
  then show "\<exists>le lvs below. list st = (le, lvs) # below \<and> list st3 = list st \<and>
         atom st3 = Some (escaped st \<or> le, [d2])"
    using parse_step_atom_start [of st d2 st3] by blast
next
  assume "atom st = None \<and> list st = (e, vs) # (pe, pvs) # up"
  note a = this
  show "parse_loop st (CHR 0x27 # CHR '')'' # replicate k (CHR '' '') @ CHR ''('' # rest) =
      parse_loop (st\<lparr>list := (True, []) # (pe, pvs @ [List e vs]) # up, escaped := False\<rparr>) rest"
    by (rule quote_close_open_nested) (use a in simp_all)
next
  assume "atom st = None \<and> list st = (e, vs) # (pe, pvs) # up \<and> t \<noteq> [] \<and> list_all is_atom_char t"
  note a = this
  show "parse_loop st
        (CHR 0x27 # CHR '')'' # replicate k (CHR '' '') @ CHR ''('' # t @ CHR '')'' # rest) =
      parse_loop (st\<lparr>list := (pe, pvs @ [List e vs, List True [Atom True t]]) # up,
                     escaped := False\<rparr>) rest"
    by (rule quoted_list_closed_nested) (use a in simp_all)
next
  assume "atom st = None \<and> list st = [(e, vs)] \<and> t \<noteq> [] \<and> list_all is_atom_char t"
  note a = this
  show "parse_loop st
        (CHR 0x27 # CHR '')'' # replicate k (CHR '' '') @ CHR ''('' # t @ CHR '')'' # rest) =
      parse_loop (st\<lparr>list := [],
                     statements := statements st @ [List e vs, List True [Atom True t]],
                     escaped := False\<rparr>) rest"
    by (rule quoted_list_closed_top) (use a in simp_all)
qed

theorem pending_quote_bit_witness:
  "parse_step \<lparr>atom = None, escaped = True, list = [(False, [Atom False ''A''])], statements = []\<rparr>
     (CHR '')'') =
   Inr \<lparr>atom = None, escaped = True, list = [], statements = [List False [Atom False ''A'']]\<rparr> \<and>
   parse_loop \<lparr>atom = None, escaped = True, list = [(False, [Atom False ''A''])], statements = []\<rparr>
     (CHR 0x27 # '') (B)'') =
   Inr \<lparr>atom = None, escaped = False, list = [],
        statements = [List False [Atom False ''A''], List True [Atom True ''B'']]\<rparr> \<and>
   parse ''(A ') (B)'' = Inr [List False [Atom False ''A''], List True [Atom True ''B'']] \<and>
   parse_loop \<lparr>atom = None, escaped = False,
               list = [(False, [Atom False ''A'']), (False, [Atom False ''X''])], statements = []\<rparr>
     (CHR 0x27 # '') B)'') =
   Inr \<lparr>atom = None, escaped = False, list = [],
        statements = [List False [Atom False ''X'', List False [Atom False ''A''], Atom True ''B'']]\<rparr> \<and>
   parse ''(X (A ') B)'' =
     Inr [List False [Atom False ''X'', List False [Atom False ''A''], Atom True ''B'']] \<and>
   parse_step \<lparr>atom = None, escaped = True, list = [(False, [Atom False ''A''])], statements = []\<rparr>
     (CHR ''('') =
   Inr \<lparr>atom = None, escaped = False, list = [(True, []), (False, [Atom False ''A''])],
        statements = []\<rparr> \<and>
   is_atom_char (CHR ''B'') \<and>
   parse_step \<lparr>atom = None, escaped = True, list = [(False, [Atom False ''A''])], statements = []\<rparr>
     (CHR ''B'') =
   Inr \<lparr>atom = Some (True, ''B''), escaped = False, list = [(False, [Atom False ''A''])],
        statements = []\<rparr> \<and>
   ''B'' \<noteq> [] \<and> list_all is_atom_char ''B'' \<and>
   parse_loop \<lparr>atom = None, escaped = False,
               list = [(False, [Atom False ''A'']), (False, [Atom False ''X''])], statements = []\<rparr>
     (CHR 0x27 # '') (B))'') =
   Inr \<lparr>atom = None, escaped = False, list = [],
        statements = [List False [Atom False ''X'', List False [Atom False ''A''],
                                  List True [Atom True ''B'']]]\<rparr> \<and>
   parse ''(X (A ') (B))'' =
     Inr [List False [Atom False ''X'', List False [Atom False ''A''], List True [Atom True ''B'']]]"
  using pending_quote_bit [where
      st = "\<lparr>atom = None, escaped = True, list = [(False, [Atom False ''A''])], statements = []\<rparr>"
      and c = "CHR '')''"
      and st' = "\<lparr>atom = None, escaped = True, list = [], statements = [List False [Atom False ''A'']]\<rparr>"
      and e = False and vs = "[Atom False ''A'']" and k = "Suc 0" and rest = "[]"
      and ?st2.0 = "\<lparr>atom = None, escaped = False, list = [(True, []), (False, [Atom False ''A''])],
                     statements = []\<rparr>"
      and ?d2.0 = "CHR ''B''"
      and ?st3.0 = "\<lparr>atom = Some (True, ''B''), escaped = False, list = [(False, [Atom False ''A''])],
                     statements = []\<rparr>"
      and t = "''B''"]
    pending_quote_bit [where
      st = "\<lparr>atom = None, escaped = False,
               list = [(False, [Atom False ''A'']), (False, [Atom False ''X''])], statements = []\<rparr>"
      and e = False and vs = "[Atom False ''A'']" and pe = False and pvs = "[Atom False ''X'']"
      and up = "[]" and d = "CHR ''B''" and k = "Suc 0" and rest = "'')''" and t = "''B''"]
  by (simp add: parse_def parse_init_def parse_step_def push_atom_def is_atom_char_def)

section \<open>The evaluator: basic facts\<close>

lemma bind_res_ok [simp]: "bind_res (ok v s) f = f v s"
  by (simp add: ok_def)

lemma bind_res_throw [simp]: "bind_res (throw e s) f = throw e s"
  by (simp add: throw_def)

lemma upper_char_cases:
  "upper_char a = CHR ''N'' \<Longrightarrow> a = CHR ''n'' \<or> a = CHR ''N''"
  "upper_char a = CHR ''I'' \<Longrightarrow> a = CHR ''i'' \<or> a = CHR ''I''"
  "upper_char a = CHR ''L'' \<Longrightarrow> a = CHR ''l'' \<or> a = CHR ''L''"
  by (auto simp: upper_char_def split: if_splits)

lemma toUpperCase_NIL:
  assumes "toUpperCase t = ''NIL''"
  shows "t \<in> set [''nil'', ''niL'', ''nIl'', ''nIL'', ''Nil'', ''NiL'', ''NIl'', ''NIL'']"
proof -
  from assms obtain a b c where t: "t = [a, b, c]"
    and "upper_char a = CHR ''N''" "upper_char b = CHR ''I''" "upper_char c = CHR ''L''"
    by (auto simp: toUpperCase_def)
  with upper_char_cases [of a] upper_char_cases [of b] upper_char_cases [of c]
  show ?thesis by auto
qed

lemmas numeric_defs =
  isNaN_Number_def isStringNumericLiteral_def trim_def isStrWhiteSpaceChar_def
  isStrDecimalLiteral_def isStrUnsignedDecimalLiteral_def isDecimalDigit_def
  isNonDecimalIntegerLiteral_def isExponentPartOpt_def isSignedInteger_def isDecimalDigits_def

lemma NIL_isNaN:
  assumes "toUpperCase t = ''NIL''"
  shows "isNaN_Number t"
proof -
  have "\<forall>u \<in> set [''nil'', ''niL'', ''nIl'', ''nIL'', ''Nil'', ''NiL'', ''NIl'', ''NIL''].
          isNaN_Number u"
    by (simp add: numeric_defs)
  with toUpperCase_NIL [OF assms] show ?thesis by blast
qed

section \<open>Fetching an atom\<close>

text \<open>
  C2, as the code has it. An unquoted atom whose upper-cased text is neither \<open>TRUE\<close> nor
  \<open>NIL\<close> and whose text the host's \<open>Number\<close> turns into NaN is looked up under its
  upper-cased text: an unknown-variable error when the name is absent, the bound value
  itself when it is present. An atom whose text \<open>Number\<close> turns into any number, finite
  or not, is returned unchanged, and the token \<open>Infinity\<close> is such a text.
\<close>

theorem fetch_atom:
  "(toUpperCase t \<noteq> ''TRUE'' \<and> toUpperCase t \<noteq> ''NIL'' \<and> isNaN_Number t \<longrightarrow>
      fetch H (Suc n) (Atom False t) s =
        (case memory s (toUpperCase t) of
           None \<Rightarrow> throw (Error (''Unknown variable '' @ [CHR 0x27] @ t @ [CHR 0x27] @ ''.'')) s
         | Some variable \<Rightarrow> ok variable s)) \<and>
   (\<not> isNaN_Number u \<longrightarrow> fetch H (Suc n) (Atom e u) s = ok (Atom e u) s) \<and>
   \<not> isNaN_Number ''Infinity''"
proof (intro conjI impI)
  assume "toUpperCase t \<noteq> ''TRUE'' \<and> toUpperCase t \<noteq> ''NIL'' \<and> isNaN_Number t"
  then show "fetch H (Suc n) (Atom False t) s =
        (case memory s (toUpperCase t) of
           None \<Rightarrow> throw (Error (''Unknown variable '' @ [CHR 0x27] @ t @ [CHR 0x27] @ ''.'')) s
         | Some variable \<Rightarrow> ok variable s)"
    by simp
next
  assume num: "\<not> isNaN_Number u"
  with NIL_isNaN [of u] have "toUpperCase u \<noteq> ''NIL''" by blast
  with num show "fetch H (Suc n) (Atom e u) s = ok (Atom e u) s" by simp
next
  show "\<not> isNaN_Number ''Infinity''"
    by (simp add: numeric_defs)
qed

theorem fetch_atom_witness:
  "toUpperCase ''x'' \<noteq> ''TRUE'' \<and> toUpperCase ''x'' \<noteq> ''NIL'' \<and> isNaN_Number ''x'' \<and>
   fetch example_host (Suc 0) (Atom False ''x'') \<lparr>memory = [''X'' \<mapsto> Atom True ''v''], out = []\<rparr> =
     ok (Atom True ''v'') \<lparr>memory = [''X'' \<mapsto> Atom True ''v''], out = []\<rparr> \<and>
   \<not> isNaN_Number ''12'' \<and>
   fetch example_host (Suc 0) (Atom False ''12'') \<lparr>memory = [''X'' \<mapsto> Atom True ''v''], out = []\<rparr> =
     ok (Atom False ''12'') \<lparr>memory = [''X'' \<mapsto> Atom True ''v''], out = []\<rparr>"
proof -
  have a: "toUpperCase ''x'' \<noteq> ''TRUE'' \<and> toUpperCase ''x'' \<noteq> ''NIL'' \<and> isNaN_Number ''x''"
    by (simp add: toUpperCase_def upper_char_def numeric_defs)
  have b: "\<not> isNaN_Number ''12''"
    by (simp add: numeric_defs)
  have c: "toUpperCase ''x'' = ''X''"
    by (simp add: toUpperCase_def upper_char_def)
  from a b c
    fetch_atom [of "''x''" example_host 0 "\<lparr>memory = [''X'' \<mapsto> Atom True ''v''], out = []\<rparr>"
      "''12''" False]
  show ?thesis by simp
qed

text \<open>
  The token \<open>Infinity\<close> is not bound in the driver's environment, and fetching it as an
  unquoted atom neither looks it up nor fails: the atom comes back.
\<close>

theorem fetch_Infinity_not_looked_up:
  "initial_memory (toUpperCase ''Infinity'') = None \<and>
   fetch example_host (Suc 0) (Atom False ''Infinity'') initial_state =
     Some (Inr (Atom False ''Infinity'', initial_state))"
  by (simp add: initial_memory_def toUpperCase_def upper_char_def numeric_defs ok_def)

section \<open>The evaluator: results of a bind\<close>

lemma bind_res_Inr:
  "bind_res r f = Some (Inr y) \<longleftrightarrow> (\<exists>v s. r = Some (Inr (v, s)) \<and> f v s = Some (Inr y))"
  by (cases "(r, f)" rule: bind_res.cases) auto

lemma throw_not_Inr [simp]: "throw e s \<noteq> Some (Inr y)"
  by (simp add: throw_def)

lemma ok_Inr [simp]: "ok v s = Some (Inr (v', s')) \<longleftrightarrow> v' = v \<and> s' = s"
  by (auto simp: ok_def)

lemmas example_defs =
  example_state_def initial_state_def initial_memory_def toUpperCase_def upper_char_def
  apply_native_def numeric_defs

section \<open>The cadr family\<close>

lemma CAR_arity:
  "length args \<noteq> 1 \<Longrightarrow> CAR F args s = throw (arity_error ''CAR'' ''1 argument'' (length args)) s"
  by (cases args) (auto simp: CAR_def split: list.splits)

lemma CDR_arity:
  "length args \<noteq> 1 \<Longrightarrow> CDR F args s = throw (arity_error ''CDR'' ''1 argument'' (length args)) s"
  by (cases args) (auto simp: CDR_def split: list.splits)

lemma matches_cadr_length:
  assumes "matches_cadr (toUpperCase name)"
  shows "3 \<le> length name"
proof -
  from assms have "3 \<le> length (toUpperCase name)"
    by (auto simp: matches_cadr_def split: list.splits)
  then show ?thesis by (simp add: toUpperCase_def)
qed

lemma rev_nonempty: "m \<noteq> [] \<Longrightarrow> rev m = last m # rev (butlast m)"
proof -
  assume "m \<noteq> []"
  then have "rev m = rev (butlast m @ [last m])" by simp
  then show ?thesis by simp
qed

lemma cadr_letters:
  assumes "3 \<le> length name"
  shows "rev (butlast (tl name)) = last (butlast name) # rev (butlast (butlast (tl name)))"
proof -
  from assms obtain a b c r where name: "name = a # b # c # r"
    by (cases name; cases "tl name"; cases "tl (tl name)") auto
  then have ne: "butlast (tl name) \<noteq> []" by simp
  from name have "last (butlast name) = last (butlast (tl name))" by simp
  with rev_nonempty [OF ne] show ?thesis by simp
qed

text \<open>
  C9. When the head atom is unbound and its upper-cased text matches the pattern, with
  \<open>CAR\<close> and \<open>CDR\<close> bound to their natives, the whole argument tail goes to the first
  application: a call with no argument or with more than one fails with the arity error
  of \<open>CAR\<close> or of \<open>CDR\<close>, whichever the last letter before the final one selects.
\<close>

theorem cadr_arity:
  assumes "memory s (toUpperCase name) = None"
    and "matches_cadr (toUpperCase name)"
    and "memory s ''CAR'' = Some (Native N_CAR)"
    and "memory s ''CDR'' = Some (Native N_CDR)"
    and "length args \<noteq> 1"
  shows "execute H (Suc n) False (Atom he name # args) s =
         throw (arity_error (if last (butlast name) = CHR ''A'' then ''CAR'' else ''CDR'')
                  ''1 argument'' (length args)) s"
proof -
  have letters: "rev (butlast (tl name)) = last (butlast name) # rev (butlast (butlast (tl name)))"
    using matches_cadr_length [OF assms(2)] by (rule cadr_letters)
  show ?thesis
    using assms
    by (simp add: letters call_value_def apply_native_def CAR_arity CDR_arity)
qed

theorem cadr_arity_witness:
  "execute example_host (Suc 0) False
     [Atom False ''CADR'', List True [Atom True ''1'', Atom True ''2''], Atom False ''4'']
     initial_state =
   throw (Error ''CDR: Expected 1 argument, got 2 instead.'') initial_state \<and>
   execute example_host (Suc 0) False [Atom False ''caar''] initial_state =
   throw (Error ''CDR: Expected 1 argument, got 0 instead.'') initial_state"
  using cadr_arity [of initial_state "''CADR''" "[List True [Atom True ''1'', Atom True ''2''], Atom False ''4'']"
        example_host 0 False]
    cadr_arity [of initial_state "''caar''" "[]" example_host 0 False]
  by (simp add: initial_state_def initial_memory_def toUpperCase_def upper_char_def matches_cadr_def
      arity_error_def show_nat.simps)

text \<open>
  C1 at \<open>(cadr '(1 2 3))\<close>. The letters are compared with \<open>A\<close> in the spelling of the
  call, not in upper case: a lower-case \<open>a\<close> applies \<open>CDR\<close>. The call in lower case
  returns the list \<open>(3)\<close>, the same call in upper case returns the atom \<open>2\<close>.
\<close>

theorem cadr_lower_case:
  "execute H (Suc (Suc n)) False
     [Atom False ''cadr'', List True [Atom True ''1'', Atom True ''2'', Atom True ''3'']]
     initial_state =
   Some (Inr (List True [Atom True ''3''], initial_state)) \<and>
   execute H (Suc (Suc n)) False
     [Atom False ''CADR'', List True [Atom True ''1'', Atom True ''2'', Atom True ''3'']]
     initial_state =
   Some (Inr (Atom True ''2'', initial_state))"
  by (simp add: initial_state_def initial_memory_def toUpperCase_def upper_char_def
      matches_cadr_def call_value_def apply_native_def CAR_def CDR_def ok_def)

section \<open>Calling a method\<close>



text \<open>
  C7. When a call of a method returns, the body has been executed in the environment
  the call started with plus the binding of the parameter, and the environment the
  caller is left with is the one that fetching the argument left: nothing the body
  writes to its environment reaches the caller's.
\<close>

theorem method_call_frame:
  assumes "memory s (toUpperCase name) = Some (Method ne nm pe (Atom ae p # ps') be body)"
    and "execute H (Suc n) False (Atom he name # a # rest) s = Some (Inr (r, s'))"
  shows "\<exists>v s1 s2.
           fetch H n a s = Some (Inr (v, s1)) \<and>
           execute H n be body \<lparr>memory = (memory s)(toUpperCase p \<mapsto> v), out = out s1\<rparr> =
             Some (Inr (r, s2)) \<and>
           memory s' = memory s1 \<and> out s' = out s2"
proof -
  from assms obtain v s1 s2 where f: "fetch H n a s = Some (Inr (v, s1))"
    and x: "execute H n be body (s1\<lparr>memory := (memory s)(toUpperCase p \<mapsto> v)\<rparr>) = Some (Inr (r, s2))"
    and s': "s' = s2\<lparr>memory := memory s1\<rparr>"
    by (auto simp: bind_res_Inr ok_def)
  have eq: "s1\<lparr>memory := (memory s)(toUpperCase p \<mapsto> v)\<rparr> =
            \<lparr>memory = (memory s)(toUpperCase p \<mapsto> v), out = out s1\<rparr>"
    by simp
  from f x s' show ?thesis unfolding eq by auto
qed

theorem method_call_frame_witness:
  "memory example_state (toUpperCase ''F'') =
     Some (Method False ''F'' False [Atom False ''N''] False
             [Atom False ''SETQ'', Atom False ''X'', List False [Atom False ''CAR'', Atom False ''N'']]) \<and>
   execute example_host (Suc 4) False [Atom False ''F'', List True [Atom True ''1'']] example_state =
     Some (Inr (Atom True ''1'', example_state)) \<and>
   memory example_state ''X'' = None \<and>
   (\<exists>v s1 s2.
      fetch example_host 4 (List True [Atom True ''1'']) example_state = Some (Inr (v, s1)) \<and>
      execute example_host 4 False
        [Atom False ''SETQ'', Atom False ''X'', List False [Atom False ''CAR'', Atom False ''N'']]
        \<lparr>memory = (memory example_state)(toUpperCase ''N'' \<mapsto> v), out = out s1\<rparr> =
        Some (Inr (Atom True ''1'', s2)) \<and>
      memory example_state = memory s1 \<and> out example_state = out s2)"
proof -
  have m: "memory example_state (toUpperCase ''F'') =
     Some (Method False ''F'' False [Atom False ''N''] False
             [Atom False ''SETQ'', Atom False ''X'', List False [Atom False ''CAR'', Atom False ''N'']])"
    by (simp add: example_defs)
  have x: "execute example_host (Suc 4) False [Atom False ''F'', List True [Atom True ''1'']]
             example_state = Some (Inr (Atom True ''1'', example_state))"
    by (simp add: example_defs eval_nat_numeral CAR_def SETQ_def isTrue_def isNil_def ok_def)
  have n: "memory example_state ''X'' = None"
    by (simp add: example_defs)
  from m x n method_call_frame [OF m x] show ?thesis by blast
qed

section \<open>CONS of CAR and CDR\<close>

lemma fetch_self_evaluating:
  "self_evaluating v \<Longrightarrow> fetch H (Suc n) v s = ok v s"
  by (cases v) (auto simp: self_evaluating_def)

text \<open>
  C3, as the code has it. For a quoted list whose first element is self-evaluating,
  \<open>(CONS (CAR L) (CDR L))\<close> returns, given fuel for four nested calls, a quoted list of
  the elements of \<open>L\<close> in their order, and leaves the state as it was.
\<close>

theorem cons_car_cdr:
  assumes "self_evaluating x"
    and "memory s ''CONS'' = Some (Native N_CONS)"
    and "memory s ''CAR'' = Some (Native N_CAR)"
    and "memory s ''CDR'' = Some (Native N_CDR)"
  shows "execute H (Suc (Suc (Suc (Suc n)))) False
           [Atom False ''CONS'',
            List False [Atom False ''CAR'', List True (x # xs)],
            List False [Atom False ''CDR'', List True (x # xs)]] s =
         Some (Inr (List True (x # xs), s))"
proof -
  have up: "toUpperCase ''CONS'' = ''CONS''" "toUpperCase ''CAR'' = ''CAR''"
    "toUpperCase ''CDR'' = ''CDR''"
    by (simp_all add: toUpperCase_def upper_char_def)
  have car: "execute H (Suc (Suc n)) False [Atom False ''CAR'', List True (x # xs)] s = ok x s"
    using assms(3) by (simp add: up apply_native_def CAR_def)
  have cdr: "execute H (Suc (Suc n)) False [Atom False ''CDR'', List True (x # xs)] s =
             ok (List True xs) s"
    using assms(4) by (simp add: up apply_native_def CDR_def)
  have f1: "fetch H (Suc (Suc (Suc n))) (List False [Atom False ''CAR'', List True (x # xs)]) s = ok x s"
    using car fetch_self_evaluating [OF assms(1), of H "Suc n" s] by simp
  have f2: "fetch H (Suc (Suc (Suc n))) (List False [Atom False ''CDR'', List True (x # xs)]) s =
            ok (List True xs) s"
    using cdr by simp
  show ?thesis
    using assms(2) f1 f2 by (simp add: up apply_native_def CONS_def ok_def del: fetch.simps)
qed

theorem cons_car_cdr_witness:
  "self_evaluating (Atom True ''a'') \<and>
   execute example_host (Suc (Suc (Suc (Suc 0)))) False
     [Atom False ''CONS'',
      List False [Atom False ''CAR'', List True [Atom True ''a'', Atom True ''b'']],
      List False [Atom False ''CDR'', List True [Atom True ''a'', Atom True ''b'']]] initial_state =
   Some (Inr (List True [Atom True ''a'', Atom True ''b''], initial_state))"
proof -
  have a: "self_evaluating (Atom True ''a'')"
    by (simp add: self_evaluating_def toUpperCase_def upper_char_def)
  have b: "memory initial_state ''CONS'' = Some (Native N_CONS)"
    "memory initial_state ''CAR'' = Some (Native N_CAR)"
    "memory initial_state ''CDR'' = Some (Native N_CDR)"
    by (simp_all add: initial_state_def initial_memory_def)
  from a cons_car_cdr [OF a b, of example_host 0 "[Atom True ''b'']"] show ?thesis by simp
qed

text \<open>
  With a first element that is an unquoted nested list, as in \<open>'((A B) C)\<close>, the result of
  \<open>CAR\<close> is fetched once more by \<open>CONS\<close>, that is executed as the call \<open>(A B)\<close>: the
  evaluation fails.
\<close>

theorem cons_car_cdr_nested_list_fails:
  "parse ''(CONS (CAR '((A B) C)) (CDR '((A B) C)))'' =
     Inr [List False
            [Atom False ''CONS'',
             List False [Atom False ''CAR'',
                         List True [List False [Atom False ''A'', Atom False ''B''], Atom True ''C'']],
             List False [Atom False ''CDR'',
                         List True [List False [Atom False ''A'', Atom False ''B''], Atom True ''C'']]]] \<and>
   execute example_host (Suc (Suc (Suc (Suc 0)))) False
     [Atom False ''CONS'',
      List False [Atom False ''CAR'',
                  List True [List False [Atom False ''A'', Atom False ''B''], Atom True ''C'']],
      List False [Atom False ''CDR'',
                  List True [List False [Atom False ''A'', Atom False ''B''], Atom True ''C'']]]
     initial_state =
   Some (Inl (Error (''Unknown function call '' @ [CHR 0x27] @ ''A'' @ [CHR 0x27] @ ''.''), []))"
proof -
  have p: "parse ''(CONS (CAR '((A B) C)) (CDR '((A B) C)))'' =
     Inr [List False
            [Atom False ''CONS'',
             List False [Atom False ''CAR'',
                         List True [List False [Atom False ''A'', Atom False ''B''], Atom True ''C'']],
             List False [Atom False ''CDR'',
                         List True [List False [Atom False ''A'', Atom False ''B''], Atom True ''C'']]]]"
    by (simp add: parse_def parse_init_def parse_step_def push_atom_def)
  have x: "execute example_host (Suc (Suc (Suc (Suc 0)))) False
     [Atom False ''CONS'',
      List False [Atom False ''CAR'',
                  List True [List False [Atom False ''A'', Atom False ''B''], Atom True ''C'']],
      List False [Atom False ''CDR'',
                  List True [List False [Atom False ''A'', Atom False ''B''], Atom True ''C'']]]
     initial_state =
   Some (Inl (Error (''Unknown function call '' @ [CHR 0x27] @ ''A'' @ [CHR 0x27] @ ''.''), []))"
    by (simp add: example_defs CONS_def CAR_def CDR_def matches_cadr_def throw_def)
  from p x show ?thesis by simp
qed

section \<open>Arithmetic on NIL\<close>

text \<open>
  C5 at \<open>(ADD 1 NIL)\<close>. The atom \<open>NIL\<close> fetches to the empty list, whose \<open>value\<close> the
  host's \<open>Number\<close> turns into zero: \<open>ADD\<close> returns the sum of \<open>1\<close> and of the number of
  the empty text, on every host and with any fuel of two or more, and does not fail.
\<close>

theorem ADD_NIL:
  "execute H (Suc (Suc n)) False [Atom False ''ADD'', Atom False ''1'', Atom False ''NIL'']
     initial_state =
   Some (Inr (Atom False (numToString H (fadd H (fadd H (fzero H) (toNumber H ''1'')) (toNumber H []))),
              initial_state))"
  by (simp add: initial_state_def initial_memory_def toUpperCase_def upper_char_def
      apply_native_def ADD_def Number_value_def numeric_defs ok_def)

section \<open>Methods have one parameter\<close>

lemma fetch_okD:
  "fetch_ok F \<Longrightarrow> methods_ok p \<Longrightarrow> state_ok s \<Longrightarrow> F p s = Some (Inr (v, s')) \<Longrightarrow>
   methods_ok v \<and> state_ok s'"
  unfolding fetch_ok_def by blast

lemma state_ok_update:
  "state_ok s \<Longrightarrow> methods_ok v \<Longrightarrow> state_ok (s\<lparr>memory := (memory s)(k \<mapsto> v)\<rparr>)"
  by (auto simp: state_ok_def)

lemma state_ok_out [simp]: "state_ok (s\<lparr>out := x\<rparr>) = state_ok s"
  by (simp add: state_ok_def)

lemma ADD_loop_ok:
  "fetch_ok F \<Longrightarrow> list_all methods_ok ps \<Longrightarrow> state_ok s \<Longrightarrow>
   ADD_loop H F ps acc s = Some (Inr (r, s')) \<Longrightarrow> state_ok s'"
proof (induction ps arbitrary: acc s)
  case Nil
  then show ?case by simp
next
  case (Cons p ps)
  from Cons.prems(4) obtain v s1 x where f: "F p s = Some (Inr (v, s1))"
    and r: "ADD_loop H F ps (fadd H acc x) s1 = Some (Inr (r, s'))"
    by (auto simp: bind_res_Inr split: option.splits)
  from fetch_okD [OF Cons.prems(1) _ Cons.prems(3) f] Cons.prems(2) have "state_ok s1" by simp
  from Cons.IH [OF Cons.prems(1) _ this r] Cons.prems(2) show ?case by simp
qed

lemma MULT_loop_ok:
  "fetch_ok F \<Longrightarrow> list_all methods_ok ps \<Longrightarrow> state_ok s \<Longrightarrow>
   MULT_loop H F ps acc s = Some (Inr (r, s')) \<Longrightarrow> state_ok s'"
proof (induction ps arbitrary: acc s)
  case Nil
  then show ?case by simp
next
  case (Cons p ps)
  from Cons.prems(4) obtain v s1 x where f: "F p s = Some (Inr (v, s1))"
    and r: "MULT_loop H F ps (fmul H acc x) s1 = Some (Inr (r, s'))"
    by (auto simp: bind_res_Inr split: option.splits)
  from fetch_okD [OF Cons.prems(1) _ Cons.prems(3) f] Cons.prems(2) have "state_ok s1" by simp
  from Cons.IH [OF Cons.prems(1) _ this r] Cons.prems(2) show ?case by simp
qed

lemma ADD_ok:
  "fetch_ok F \<Longrightarrow> list_all methods_ok ps \<Longrightarrow> state_ok s \<Longrightarrow>
   ADD H F ps s = Some (Inr (v, s')) \<Longrightarrow> methods_ok v \<and> state_ok s'"
  by (auto simp: ADD_def bind_res_Inr split: if_splits dest: ADD_loop_ok)

lemma MULT_ok:
  "fetch_ok F \<Longrightarrow> list_all methods_ok ps \<Longrightarrow> state_ok s \<Longrightarrow>
   MULT H F ps s = Some (Inr (v, s')) \<Longrightarrow> methods_ok v \<and> state_ok s'"
  by (auto simp: MULT_def bind_res_Inr split: if_splits dest: MULT_loop_ok)

lemma binary_numeric_ok:
  assumes "fetch_ok F" "list_all methods_ok ps" "state_ok s"
    and "binary_numeric H F name m1 m2 result ps s = Some (Inr (v, s'))"
    and "\<And>x y. methods_ok (result x y)"
  shows "methods_ok v \<and> state_ok s'"
proof -
  from assms(4) obtain p0 p1 where ps: "ps = [p0, p1]"
    by (auto simp: binary_numeric_def split: list.splits)
  from assms(4) obtain v0 s0 v1 s1 x y where f0: "F p0 s = Some (Inr (v0, s0))"
    and f1: "F p1 s0 = Some (Inr (v1, s1))" and v: "v = result x y" and s': "s' = s1"
    by (auto simp: binary_numeric_def ps bind_res_Inr split: option.splits)
  from fetch_okD [OF assms(1) _ assms(3) f0] assms(2) ps have "state_ok s0" by simp
  from fetch_okD [OF assms(1) _ this f1] assms(2) ps have "state_ok s1" by simp
  with v s' assms(5) show ?thesis by simp
qed

lemma unary_numeric_ok:
  assumes "fetch_ok F" "list_all methods_ok ps" "state_ok s"
    and "unary_numeric H F name m1 result ps s = Some (Inr (v, s'))"
    and "\<And>x. methods_ok (result x)"
  shows "methods_ok v \<and> state_ok s'"
proof -
  from assms(4) obtain p0 where ps: "ps = [p0]"
    by (auto simp: unary_numeric_def split: list.splits)
  from assms(4) obtain v0 s0 x where f0: "F p0 s = Some (Inr (v0, s0))"
    and v: "v = result x" and s': "s' = s0"
    by (auto simp: unary_numeric_def ps bind_res_Inr split: option.splits)
  from fetch_okD [OF assms(1) _ assms(3) f0] assms(2) ps have "state_ok s0" by simp
  with v s' assms(5) show ?thesis by simp
qed


lemma numeric_natives_ok:
  assumes "fetch_ok F" "list_all methods_ok ps" "state_ok s"
  shows "DIV H F ps s = Some (Inr (v, s')) \<Longrightarrow> methods_ok v \<and> state_ok s'"
    and "EQ H F ps s = Some (Inr (v, s')) \<Longrightarrow> methods_ok v \<and> state_ok s'"
    and "EXP H F ps s = Some (Inr (v, s')) \<Longrightarrow> methods_ok v \<and> state_ok s'"
    and "SUB H F ps s = Some (Inr (v, s')) \<Longrightarrow> methods_ok v \<and> state_ok s'"
    and "NEG H F ps s = Some (Inr (v, s')) \<Longrightarrow> methods_ok v \<and> state_ok s'"
    and "POS H F ps s = Some (Inr (v, s')) \<Longrightarrow> methods_ok v \<and> state_ok s'"
    and "SQUARE H F ps s = Some (Inr (v, s')) \<Longrightarrow> methods_ok v \<and> state_ok s'"
  unfolding DIV_def EQ_def EXP_def SUB_def NEG_def POS_def SQUARE_def
  by (erule binary_numeric_ok [OF assms] unary_numeric_ok [OF assms],
      simp add: getTrue_def getNil_def)+

lemma ATOM_ok:
  assumes "fetch_ok F" "list_all methods_ok ps" "state_ok s"
    and "ATOM F ps s = Some (Inr (v, s'))"
  shows "methods_ok v \<and> state_ok s'"
proof -
  from assms(4) obtain p0 where ps: "ps = [p0]"
    by (auto simp: ATOM_def split: list.splits)
  from assms(4) obtain v0 where f0: "F p0 s = Some (Inr (v0, s'))"
    and v: "v = getTrue \<or> v = getNil"
    by (auto simp: ATOM_def ps bind_res_Inr split: if_splits)
  from fetch_okD [OF assms(1) _ assms(3) f0] assms(2) ps v show ?thesis
    by (auto simp: getTrue_def getNil_def)
qed

lemma CAR_ok:
  assumes "fetch_ok F" "list_all methods_ok ps" "state_ok s"
    and "CAR F ps s = Some (Inr (v, s'))"
  shows "methods_ok v \<and> state_ok s'"
proof -
  from assms(4) obtain p0 where ps: "ps = [p0]"
    by (auto simp: CAR_def split: list.splits)
  from assms(4) obtain v0 s0 where f0: "F p0 s = Some (Inr (v0, s0))"
    and r: "(case v0 of List e (x # xs) \<Rightarrow> ok x s0
             | _ \<Rightarrow> throw (Error ''CAR: Parameter must be a non-NIL list.'') s0) =
            Some (Inr (v, s'))"
    by (auto simp: CAR_def ps bind_res_Inr)
  from fetch_okD [OF assms(1) _ assms(3) f0] assms(2) ps r show ?thesis
    by (auto split: Value.splits list.splits)
qed

lemma CDR_ok:
  assumes "fetch_ok F" "list_all methods_ok ps" "state_ok s"
    and "CDR F ps s = Some (Inr (v, s'))"
  shows "methods_ok v \<and> state_ok s'"
proof -
  from assms(4) obtain p0 where ps: "ps = [p0]"
    by (auto simp: CDR_def split: list.splits)
  from assms(4) obtain v0 s0 where f0: "F p0 s = Some (Inr (v0, s0))"
    and r: "(case v0 of List e (x # xs) \<Rightarrow> ok (List True xs) s0
             | _ \<Rightarrow> throw (Error ''CDR: Parameter must be a non-NIL list.'') s0) =
            Some (Inr (v, s'))"
    by (auto simp: CDR_def ps bind_res_Inr)
  from fetch_okD [OF assms(1) _ assms(3) f0] assms(2) ps r show ?thesis
    by (auto split: Value.splits list.splits)
qed

lemma REVERSE_ok:
  assumes "fetch_ok F" "list_all methods_ok ps" "state_ok s"
    and "REVERSE F ps s = Some (Inr (v, s'))"
  shows "methods_ok v \<and> state_ok s'"
proof -
  from assms(4) obtain p0 where ps: "ps = [p0]"
    by (auto simp: REVERSE_def split: list.splits)
  from assms(4) obtain v0 s0 where f0: "F p0 s = Some (Inr (v0, s0))"
    and r: "(case v0 of List e vs \<Rightarrow> ok (List True (rev vs)) s0
             | _ \<Rightarrow> throw (Error ''REVERSE: Parameter must be a list.'') s0) =
            Some (Inr (v, s'))"
    by (auto simp: REVERSE_def ps bind_res_Inr)
  from fetch_okD [OF assms(1) _ assms(3) f0] assms(2) ps r show ?thesis
    by (auto split: Value.splits)
qed

lemma CONS_ok:
  assumes "fetch_ok F" "list_all methods_ok ps" "state_ok s"
    and "CONS F ps s = Some (Inr (v, s'))"
  shows "methods_ok v \<and> state_ok s'"
proof -
  from assms(4) obtain p0 p1 where ps: "ps = [p0, p1]"
    by (auto simp: CONS_def split: list.splits)
  from assms(4) obtain left s0 right s1 where f0: "F p0 s = Some (Inr (left, s0))"
    and f1: "F p1 s0 = Some (Inr (right, s1))"
    and r: "(case right of List e vs \<Rightarrow> ok (List True (left # vs)) s1
             | _ \<Rightarrow> throw (Error ''CONS: Parameter must be a list.'') s1) =
            Some (Inr (v, s'))"
    by (auto simp: CONS_def ps bind_res_Inr)
  from fetch_okD [OF assms(1) _ assms(3) f0] assms(2) ps
  have l: "methods_ok left" and "state_ok s0" by simp_all
  from fetch_okD [OF assms(1) _ this(2) f1] assms(2) ps l r show ?thesis
    by (auto split: Value.splits)
qed

lemma SET_ok:
  assumes "fetch_ok F" "list_all methods_ok ps" "state_ok s"
    and "SET F ps s = Some (Inr (v, s'))"
  shows "methods_ok v \<and> state_ok s'"
proof -
  from assms(4) obtain p0 p1 where ps: "ps = [p0, p1]"
    by (auto simp: SET_def split: list.splits)
  from assms(4) obtain key s0 v1 s1 where f0: "F p0 s = Some (Inr (key, s0))"
    and f1: "F p1 s0 = Some (Inr (v1, s1))"
    and r: "(case key of
               Atom e t \<Rightarrow>
                 if \<not> e \<or> isTrue key \<or> isNil key
                 then throw (Error ''SET: Left-hand parameter is illegal.'') s1
                 else ok v1 (s1\<lparr>memory := (memory s1)(toUpperCase t \<mapsto> v1)\<rparr>)
             | _ \<Rightarrow> throw (Error ''SET: Left-hand parameter is illegal.'') s1) =
            Some (Inr (v, s'))"
    by (auto simp: SET_def ps bind_res_Inr)
  from fetch_okD [OF assms(1) _ assms(3) f0] assms(2) ps have "state_ok s0" by simp
  from fetch_okD [OF assms(1) _ this f1] assms(2) ps have "methods_ok v1" "state_ok s1"
    by simp_all
  with r show ?thesis
    by (auto simp: state_ok_update split: Value.splits if_splits)
qed

lemma SETQ_ok:
  assumes "fetch_ok F" "list_all methods_ok ps" "state_ok s"
    and "SETQ F ps s = Some (Inr (v, s'))"
  shows "methods_ok v \<and> state_ok s'"
proof -
  from assms(4) obtain p0 p1 where ps: "ps = [p0, p1]"
    by (auto simp: SETQ_def split: list.splits)
  from assms(4) obtain v1 s1 where f1: "F p1 s = Some (Inr (v1, s1))"
    and r: "(case p0 of
               Atom e t \<Rightarrow>
                 if e \<or> isTrue p0 \<or> isNil p0
                 then throw (Error ''SETQ: Left-hand parameter is illegal.'') s1
                 else ok v1 (s1\<lparr>memory := (memory s1)(toUpperCase t \<mapsto> v1)\<rparr>)
             | _ \<Rightarrow> throw (Error ''SETQ: Left-hand parameter is illegal.'') s1) =
            Some (Inr (v, s'))"
    by (auto simp: SETQ_def ps bind_res_Inr)
  from fetch_okD [OF assms(1) _ assms(3) f1] assms(2) ps have "methods_ok v1" "state_ok s1"
    by simp_all
  with r show ?thesis
    by (auto simp: state_ok_update split: Value.splits if_splits)
qed

lemma DEF_result:
  assumes "DEF ps s = Some (Inr (v, s'))"
  shows "\<exists>nm ae p body.
           ps = [Atom False nm, List False [Atom ae p], List False body] \<and>
           v = Method False nm False [Atom ae p] False body \<and>
           s' = s\<lparr>memory := (memory s)(toUpperCase nm \<mapsto> v)\<rparr>"
proof -
  from assms obtain a b c where ps: "ps = [a, b, c]"
    by (auto simp: DEF_def split: list.splits)
  from assms obtain nm where a: "a = Atom False nm"
    by (cases a) (auto simp: DEF_def ps split: if_splits)
  from assms obtain pl where b: "b = List False pl"
    by (cases b) (auto simp: DEF_def ps a split: if_splits)
  from assms obtain ae p where pl: "pl = [Atom ae p]"
    by (cases pl; cases "hd pl") (auto simp: DEF_def ps a b split: if_splits)
  from assms obtain body where c: "c = List False body"
    by (cases c) (auto simp: DEF_def ps a b pl split: if_splits)
  from assms show ?thesis
    by (simp add: DEF_def ps a b pl c)
qed

lemma DEF_ok:
  assumes "list_all methods_ok ps" "state_ok s" and "DEF ps s = Some (Inr (v, s'))"
  shows "methods_ok v \<and> state_ok s'"
proof -
  from DEF_result [OF assms(3)] obtain nm ae p body
    where ps: "ps = [Atom False nm, List False [Atom ae p], List False body]"
      and v: "v = Method False nm False [Atom ae p] False body"
      and s': "s' = s\<lparr>memory := (memory s)(toUpperCase nm \<mapsto> v)\<rparr>"
    by blast
  from assms(1) ps v have "methods_ok v" by simp
  with s' assms(2) show ?thesis by (simp add: state_ok_update)
qed

lemma EVAL_ok:
  assumes "fetch_ok F" "execute_ok X" "list_all methods_ok ps" "state_ok s"
    and "EVAL F X ps s = Some (Inr (v, s'))"
  shows "methods_ok v \<and> state_ok s'"
proof -
  from assms(5) obtain p0 where ps: "ps = [p0]"
    by (auto simp: EVAL_def split: list.splits)
  from assms(5) obtain v0 s0 where f0: "F p0 s = Some (Inr (v0, s0))"
    and r: "(case v0 of List e vs \<Rightarrow> X False vs s0 | _ \<Rightarrow> ok v0 s0) = Some (Inr (v, s'))"
    by (auto simp: EVAL_def ps bind_res_Inr)
  from fetch_okD [OF assms(1) _ assms(4) f0] assms(3) ps
  have ok0: "methods_ok v0" "state_ok s0" by simp_all
  show ?thesis
  proof (cases v0)
    case (List e vs)
    with r have "X False vs s0 = Some (Inr (v, s'))" by simp
    with assms(2) ok0 List show ?thesis unfolding execute_ok_def by auto
  qed (use r ok0 in auto)
qed

lemma PRINT_loop_ok:
  "toString_ok T \<Longrightarrow> list_all methods_ok ps \<Longrightarrow> state_ok s \<Longrightarrow>
   PRINT_loop H T ps s = Some (Inr (u, s')) \<Longrightarrow> state_ok s'"
proof (induction ps arbitrary: s)
  case Nil
  then show ?case by simp
next
  case (Cons p ps)
  from Cons.prems(4) obtain str s1 where t: "T p (flagUseColor H) s = Some (Inr (str, s1))"
    and r: "PRINT_loop H T ps (s1\<lparr>out := out s1 @ str @ '' ''\<rparr>) = Some (Inr (u, s'))"
    by (auto simp: bind_res_Inr)
  from Cons.prems(1,2,3) t have "state_ok s1" unfolding toString_ok_def by auto
  then have "state_ok (s1\<lparr>out := out s1 @ str @ '' ''\<rparr>)" by simp
  from Cons.IH [OF Cons.prems(1) _ this r] Cons.prems(2) show ?case by simp
qed

lemma PRINT_ok:
  "toString_ok T \<Longrightarrow> list_all methods_ok ps \<Longrightarrow> state_ok s \<Longrightarrow>
   PRINT H T ps s = Some (Inr (v, s')) \<Longrightarrow> methods_ok v \<and> state_ok s'"
  by (auto simp: PRINT_def bind_res_Inr getNil_def dest: PRINT_loop_ok)

lemma apply_native_ok:
  assumes "fetch_ok F" "execute_ok X" "toString_ok T" "list_all methods_ok ps" "state_ok s"
    and "apply_native H F X T f ps s = Some (Inr (v, s'))"
  shows "methods_ok v \<and> state_ok s'"
  using assms(6)
  unfolding apply_native_def
  by (cases f)
     (simp_all add: ADD_ok [OF assms(1,4,5)] MULT_ok [OF assms(1,4,5)]
        numeric_natives_ok [OF assms(1,4,5)] ATOM_ok [OF assms(1,4,5)]
        CAR_ok [OF assms(1,4,5)] CDR_ok [OF assms(1,4,5)] CONS_ok [OF assms(1,4,5)]
        REVERSE_ok [OF assms(1,4,5)] SET_ok [OF assms(1,4,5)] SETQ_ok [OF assms(1,4,5)]
        DEF_ok [OF assms(4,5)] EVAL_ok [OF assms(1,2,4,5)] PRINT_ok [OF assms(3,4,5)])


lemma cadr_loop_ok:
  assumes ap: "\<And>f ps s v s'. list_all methods_ok ps \<Longrightarrow> state_ok s \<Longrightarrow>
                 ap f ps s = Some (Inr (v, s')) \<Longrightarrow> methods_ok v \<and> state_ok s'"
  shows "list_all methods_ok result \<Longrightarrow> state_ok s \<Longrightarrow>
         cadr_loop ap car cdr cs result s = Some (Inr (rs, s')) \<Longrightarrow>
         list_all methods_ok rs \<and> state_ok s'"
proof (induction cs arbitrary: result s)
  case Nil
  then show ?case by simp
next
  case (Cons c cs)
  from Cons.prems(3) obtain v s1
    where c1: "call_value ap (if c = CHR ''A'' then car else cdr) result s = Some (Inr (v, s1))"
      and r: "cadr_loop ap car cdr cs [v] s1 = Some (Inr (rs, s'))"
    by (auto simp: bind_res_Inr)
  from c1 obtain f where "ap f result s = Some (Inr (v, s1))"
    by (auto simp: call_value_def split: Value.splits)
  from ap [OF Cons.prems(1,2) this] have "list_all methods_ok [v]" "state_ok s1" by simp_all
  from Cons.IH [OF this r] show ?case .
qed

lemma mapM_res_ok:
  assumes f: "\<And>x s y s'. methods_ok x \<Longrightarrow> state_ok s \<Longrightarrow> f x s = Some (Inr (y, s')) \<Longrightarrow> state_ok s'"
  shows "list_all methods_ok xs \<Longrightarrow> state_ok s \<Longrightarrow> mapM_res f xs s = Some (Inr (ys, s')) \<Longrightarrow>
         state_ok s'"
proof (induction xs arbitrary: s ys)
  case Nil
  then show ?case by simp
next
  case (Cons x xs)
  from Cons.prems(3) obtain y s1 ys' where f1: "f x s = Some (Inr (y, s1))"
    and r: "mapM_res f xs s1 = Some (Inr (ys', s'))"
    by (auto simp: bind_res_Inr)
  from f [OF _ Cons.prems(2) f1] Cons.prems(1) have "state_ok s1" by simp
  from Cons.IH [OF _ this r] Cons.prems(1) show ?case by simp
qed

lemma state_ok_memory: "state_ok s \<Longrightarrow> memory s k = Some v \<Longrightarrow> methods_ok v"
  by (auto simp: state_ok_def)

lemma state_ok_memory_eq: "state_ok s1 \<Longrightarrow> state_ok (s2\<lparr>memory := memory s1\<rparr>)"
  by (simp add: state_ok_def)

lemma state_ok_child:
  "state_ok s \<Longrightarrow> methods_ok v \<Longrightarrow> state_ok (s1\<lparr>memory := (memory s)(k \<mapsto> v)\<rparr>)"
  by (auto simp: state_ok_def)

lemma evaluator_ok:
  "fetch_ok (fetch H n) \<and> execute_ok (execute H n) \<and> toString_ok (toString H n)"
proof (induction n)
  case 0
  show ?case by (simp add: fetch_ok_def execute_ok_def toString_ok_def)
next
  case (Suc n)
  then have F: "fetch_ok (fetch H n)" and X: "execute_ok (execute H n)"
    and T: "toString_ok (toString H n)" by blast+
  note FD = fetch_okD [OF F]
  have XD: "\<And>e vs s v s'. list_all methods_ok vs \<Longrightarrow> state_ok s \<Longrightarrow>
              execute H n e vs s = Some (Inr (v, s')) \<Longrightarrow> methods_ok v \<and> state_ok s'"
    using X unfolding execute_ok_def by blast
  have TD: "\<And>p uc s str s'. methods_ok p \<Longrightarrow> state_ok s \<Longrightarrow>
              toString H n p uc s = Some (Inr (str, s')) \<Longrightarrow> state_ok s'"
    using T unfolding toString_ok_def by blast
  note AP = apply_native_ok [OF F X T]
  have fetch: "fetch_ok (fetch H (Suc n))"
    unfolding fetch_ok_def
  proof (intro allI impI)
    fix p s v s'
    assume p: "methods_ok p" and s: "state_ok s"
      and r: "fetch H (Suc n) p s = Some (Inr (v, s'))"
    show "methods_ok v \<and> state_ok s'"
    proof (cases p)
      case (Atom e t)
      with r s show ?thesis
        by (auto split: if_splits option.splits dest: state_ok_memory)
    next
      case (List e vs)
      show ?thesis
      proof (cases "\<not> e \<and> vs \<noteq> []")
        case True
        with r List obtain v1 s1 where x: "execute H n e vs s = Some (Inr (v1, s1))"
          and f: "fetch H n v1 s1 = Some (Inr (v, s'))"
          by (auto simp: bind_res_Inr)
        from XD [OF _ s x] p List have "methods_ok v1" "state_ok s1" by simp_all
        from FD [OF this f] show ?thesis .
      next
        case False
        with r List p s show ?thesis by auto
      qed
    next
      case (Method ne nm pe ps be body)
      with r p s show ?thesis by auto
    next
      case (Native f)
      with r p s show ?thesis by auto
    qed
  qed
  have execute: "execute_ok (execute H (Suc n))"
    unfolding execute_ok_def
  proof (intro allI impI)
    fix e vs s v s'
    assume vs: "list_all methods_ok vs" and s: "state_ok s"
      and r: "execute H (Suc n) e vs s = Some (Inr (v, s'))"
    show "methods_ok v \<and> state_ok s'"
    proof (cases "e \<or> vs = []")
      case True
      with r vs s show ?thesis by auto
    next
      case False
      then obtain h args where vs': "vs = h # args" and e: "\<not> e" by (cases vs) auto
      from vs vs' have args: "list_all methods_ok args" by simp
      from r e vs' obtain he methodName where h: "h = Atom he methodName"
        by (cases h) auto
      show ?thesis
      proof (cases "memory s (toUpperCase methodName)")
        case None
        with r e vs' h obtain car cdr result s1 where
          loop: "cadr_loop (apply_native H (fetch H n) (execute H n) (toString H n)) car cdr
                   (rev (butlast (tl methodName))) args s = Some (Inr (result, s1))"
          and res: "(case result of r # rs \<Rightarrow> ok r s1 | [] \<Rightarrow> throw TypeError s1) =
                    Some (Inr (v, s'))"
          by (auto simp: bind_res_Inr split: if_splits option.splits)
        have "list_all methods_ok result \<and> state_ok s1"
          by (rule cadr_loop_ok [OF _ args s loop]) (rule AP, assumption+)
        with res show ?thesis by (auto split: list.splits)
      next
        case (Some m)
        show ?thesis
        proof (cases m)
          case (Atom x11 x12)
          with r e vs' h Some show ?thesis by simp
        next
          case (List x21 x22)
          with r e vs' h Some show ?thesis by simp
        next
          case (Method ne nm pe ps be body)
          from state_ok_memory [OF s Some] Method have body: "list_all methods_ok body" by simp
          from r e vs' h Some Method obtain a rest where a: "args = a # rest"
            by (cases args) auto
          from r e vs' h Some Method a obtain ae p ps' where ps: "ps = Atom ae p # ps'"
            by (cases ps; cases "hd ps") auto
          from r e vs' h Some Method a ps obtain v1 s1 s2 where
            f: "fetch H n a s = Some (Inr (v1, s1))"
            and x: "execute H n be body (s1\<lparr>memory := (memory s)(toUpperCase p \<mapsto> v1)\<rparr>) =
                    Some (Inr (v, s2))"
            and s': "s' = s2\<lparr>memory := memory s1\<rparr>"
            by (auto simp: bind_res_Inr)
          from FD [OF _ s f] args a have v1: "methods_ok v1" and s1: "state_ok s1" by simp_all
          from XD [OF body state_ok_child [OF s v1] x] have "methods_ok v" by simp
          with s' state_ok_memory_eq [OF s1] show ?thesis by simp
        next
          case (Native f)
          with r e vs' h Some
          have "apply_native H (fetch H n) (execute H n) (toString H n) f args s =
                Some (Inr (v, s'))" by simp
          from AP [OF args s this] show ?thesis .
        qed
      qed
    qed
  qed
  have toString: "toString_ok (toString H (Suc n))"
    unfolding toString_ok_def
  proof (intro allI impI)
    fix p uc s str s'
    assume p: "methods_ok p" and s: "state_ok s"
      and r: "toString H (Suc n) p uc s = Some (Inr (str, s'))"
    from r obtain v s1 where f: "fetch H n p s = Some (Inr (v, s1))"
      by (auto simp: bind_res_Inr)
    from FD [OF p s f] have v: "methods_ok v" and s1: "state_ok s1" by simp_all
    show "state_ok s'"
    proof (cases v)
      case (Atom e t)
      with r f s1 show ?thesis by (auto split: if_splits)
    next
      case (List e vs)
      show ?thesis
      proof (cases "vs = []")
        case True
        with r f s1 List show ?thesis by auto
      next
        case ne: False
        show ?thesis
        proof (cases e)
          case True
          with r f List ne obtain strs where
            m: "mapM_res (\<lambda>element. toString H n element uc) vs s1 = Some (Inr (strs, s'))"
            by (auto simp: bind_res_Inr)
          from v List have elems: "list_all methods_ok vs" by simp
          show ?thesis
            by (rule mapM_res_ok [OF _ elems s1 m]) (rule TD, assumption+)
        next
          case False
          with r f List ne obtain r1 s2 where x: "execute H n e vs s1 = Some (Inr (r1, s2))"
            and t: "toString H n r1 False s2 = Some (Inr (str, s'))"
            by (auto simp: bind_res_Inr)
          from v List have "list_all methods_ok vs" by simp
          from XD [OF this s1 x] have "methods_ok r1" "state_ok s2" by simp_all
          from TD [OF this t] show ?thesis .
        qed
      qed
    next
      case (Method ne nm pe ps be body)
      with r f s1 show ?thesis by auto
    next
      case (Native f')
      with r f s1 show ?thesis by auto
    qed
  qed
  from fetch execute toString show ?case by (intro conjI)
qed


lemma parse_step_methods_ok:
  assumes "parse_methods_ok st" and "parse_step st c = Inr st'"
  shows "parse_methods_ok st'"
  using assms(2)
proof (cases rule: parse_step_cases)
  case (open_nested pe pvs up)
  with assms(1) show ?thesis
    by (cases "atom st") (auto simp: parse_methods_ok_def push_atom_def)
next
  case (close_top e vs)
  with assms(1) show ?thesis
    by (cases "atom st") (auto simp: parse_methods_ok_def push_atom_def)
next
  case (close_nested e vs pe pvs up)
  with assms(1) show ?thesis
    by (cases "atom st") (auto simp: parse_methods_ok_def push_atom_def)
next
  case (space_atom a e vs up)
  with assms(1) show ?thesis
    by (cases a) (auto simp: parse_methods_ok_def push_atom_def)
qed (use assms(1) in \<open>auto simp: parse_methods_ok_def\<close>)

lemma parse_loop_methods_ok:
  "parse_methods_ok st \<Longrightarrow> parse_loop st p = Inr st' \<Longrightarrow> parse_methods_ok st'"
proof (induction p arbitrary: st)
  case Nil
  then show ?case by simp
next
  case (Cons c p)
  then show ?case
    by (auto split: sum.splits dest: parse_step_methods_ok)
qed

lemma parse_methods_ok_result:
  assumes "parse program = Inr sts"
  shows "list_all methods_ok sts"
proof -
  from assms obtain st where l: "parse_loop parse_init program = Inr st"
    and sts: "sts = statements st"
    by (auto simp: parse_def split: sum.splits if_splits)
  have "parse_methods_ok parse_init" by (simp add: parse_methods_ok_def parse_init_def)
  from parse_loop_methods_ok [OF this l] show ?thesis
    by (simp add: parse_methods_ok_def sts)
qed

lemma state_ok_initial: "state_ok initial_state"
  by (simp add: state_ok_def initial_state_def initial_memory_def)

lemma DEF_rejects:
  assumes "\<forall>ae p. methodParameters \<noteq> List False [Atom ae p]"
  shows "\<exists>msg. DEF [methodName, methodParameters, methodDefinition] s = throw (Error msg) s"
proof (cases "\<exists>v s'. DEF [methodName, methodParameters, methodDefinition] s = Some (Inr (v, s'))")
  case True
  with DEF_result assms show ?thesis by blast
next
  case False
  then show ?thesis
    by (auto simp: DEF_def split: Value.splits if_splits list.splits)
qed

text \<open>
  C4, as the code has it. \<open>DEF\<close> returns a method only for an unquoted parameter list
  of exactly one element that is an atom, whatever the quote flag and the text of that
  atom, and fails on every other parameter list. Executing a list of values in which
  every method has such a parameter list, in a state in which every bound value has,
  returns a value and a state of which the same holds. It holds of the statements the
  parser returns and of the driver's environment, hence of every method an execution
  reaches.
\<close>

theorem method_parameter_list:
  "(DEF parameters s = Some (Inr (v, s')) \<longrightarrow>
      (\<exists>nm ae p body.
         parameters = [Atom False nm, List False [Atom ae p], List False body] \<and>
         v = Method False nm False [Atom ae p] False body)) \<and>
   ((\<forall>ae p. methodParameters \<noteq> List False [Atom ae p]) \<longrightarrow>
      (\<exists>msg. DEF [methodName, methodParameters, methodDefinition] s = throw (Error msg) s)) \<and>
   (list_all methods_ok vs \<and> state_ok s \<and> execute H n e vs s = Some (Inr (v, s')) \<longrightarrow>
      methods_ok v \<and> state_ok s') \<and>
   (parse program = Inr sts \<longrightarrow> list_all methods_ok sts) \<and>
   state_ok initial_state"
proof (intro conjI impI)
  assume "DEF parameters s = Some (Inr (v, s'))"
  from DEF_result [OF this]
  show "\<exists>nm ae p body.
         parameters = [Atom False nm, List False [Atom ae p], List False body] \<and>
         v = Method False nm False [Atom ae p] False body"
    by blast
next
  assume "\<forall>ae p. methodParameters \<noteq> List False [Atom ae p]"
  then show "\<exists>msg. DEF [methodName, methodParameters, methodDefinition] s = throw (Error msg) s"
    by (rule DEF_rejects)
next
  assume a: "list_all methods_ok vs \<and> state_ok s \<and> execute H n e vs s = Some (Inr (v, s'))"
  from evaluator_ok [of H n] have "execute_ok (execute H n)" by blast
  with a show "methods_ok v" "state_ok s'" unfolding execute_ok_def by blast+
next
  assume "parse program = Inr sts"
  then show "list_all methods_ok sts" by (rule parse_methods_ok_result)
next
  show "state_ok initial_state" by (rule state_ok_initial)
qed

theorem method_parameter_list_witness:
  "DEF [Atom False ''F'', List False [Atom False ''N''], List False [Atom False ''CAR'', Atom False ''N'']]
     initial_state =
     Some (Inr (Method False ''F'' False [Atom False ''N''] False [Atom False ''CAR'', Atom False ''N''],
                initial_state\<lparr>memory := initial_memory(''F'' \<mapsto>
                  Method False ''F'' False [Atom False ''N''] False
                    [Atom False ''CAR'', Atom False ''N''])\<rparr>)) \<and>
   (\<forall>ae p. List False [] \<noteq> List False [Atom ae p]) \<and>
   (\<exists>msg. DEF [Atom False ''F'', List False [], List False []] initial_state =
            throw (Error msg) initial_state) \<and>
   list_all methods_ok
     [Atom False ''DEF'', Atom False ''F'', List False [Atom False ''N''],
      List False [Atom False ''CAR'', Atom False ''N'']] \<and>
   state_ok initial_state \<and>
   execute example_host (Suc 0) False
     [Atom False ''DEF'', Atom False ''F'', List False [Atom False ''N''],
      List False [Atom False ''CAR'', Atom False ''N'']] initial_state =
     Some (Inr (Method False ''F'' False [Atom False ''N''] False [Atom False ''CAR'', Atom False ''N''],
                initial_state\<lparr>memory := initial_memory(''F'' \<mapsto>
                  Method False ''F'' False [Atom False ''N''] False
                    [Atom False ''CAR'', Atom False ''N''])\<rparr>)) \<and>
   state_ok (initial_state\<lparr>memory := initial_memory(''F'' \<mapsto>
               Method False ''F'' False [Atom False ''N''] False
                 [Atom False ''CAR'', Atom False ''N''])\<rparr>) \<and>
   parse ''(DEF F (N) (CAR N))'' =
     Inr [List False [Atom False ''DEF'', Atom False ''F'', List False [Atom False ''N''],
                      List False [Atom False ''CAR'', Atom False ''N'']]] \<and>
   list_all methods_ok
     [List False [Atom False ''DEF'', Atom False ''F'', List False [Atom False ''N''],
                  List False [Atom False ''CAR'', Atom False ''N'']]]"
proof -
  have d: "DEF [Atom False ''F'', List False [Atom False ''N''],
                List False [Atom False ''CAR'', Atom False ''N'']] initial_state =
     Some (Inr (Method False ''F'' False [Atom False ''N''] False [Atom False ''CAR'', Atom False ''N''],
                initial_state\<lparr>memory := initial_memory(''F'' \<mapsto>
                  Method False ''F'' False [Atom False ''N''] False
                    [Atom False ''CAR'', Atom False ''N''])\<rparr>))"
    by (simp add: example_defs DEF_def ok_def)
  have x: "execute example_host (Suc 0) False
     [Atom False ''DEF'', Atom False ''F'', List False [Atom False ''N''],
      List False [Atom False ''CAR'', Atom False ''N'']] initial_state =
     Some (Inr (Method False ''F'' False [Atom False ''N''] False [Atom False ''CAR'', Atom False ''N''],
                initial_state\<lparr>memory := initial_memory(''F'' \<mapsto>
                  Method False ''F'' False [Atom False ''N''] False
                    [Atom False ''CAR'', Atom False ''N''])\<rparr>))"
    by (simp add: example_defs DEF_def ok_def)
  have p: "parse ''(DEF F (N) (CAR N))'' =
     Inr [List False [Atom False ''DEF'', Atom False ''F'', List False [Atom False ''N''],
                      List False [Atom False ''CAR'', Atom False ''N'']]]"
    by (simp add: parse_def parse_init_def parse_step_def push_atom_def)
  have l: "list_all methods_ok
     [Atom False ''DEF'', Atom False ''F'', List False [Atom False ''N''],
      List False [Atom False ''CAR'', Atom False ''N'']]"
    by simp
  have v: "\<forall>ae p. List False [] \<noteq> List False [Atom ae p]"
    by simp
  from d x p l v
    method_parameter_list [of
      "[Atom False ''F'', List False [Atom False ''N''], List False [Atom False ''CAR'', Atom False ''N'']]"
      initial_state
      "Method False ''F'' False [Atom False ''N''] False [Atom False ''CAR'', Atom False ''N'']"
      "initial_state\<lparr>memory := initial_memory(''F'' \<mapsto>
         Method False ''F'' False [Atom False ''N''] False [Atom False ''CAR'', Atom False ''N''])\<rparr>"
      "List False []" "Atom False ''F''" "List False []"
      "[Atom False ''DEF'', Atom False ''F'', List False [Atom False ''N''],
        List False [Atom False ''CAR'', Atom False ''N'']]"
      example_host "Suc 0" False
      "''(DEF F (N) (CAR N))''"
      "[List False [Atom False ''DEF'', Atom False ''F'', List False [Atom False ''N''],
                    List False [Atom False ''CAR'', Atom False ''N'']]]"]
  show ?thesis by blast
qed

text \<open>
  \<open>DEF\<close> accepts the parameter lists \<open>(5)\<close>, whose atom is a number, and \<open>('TRUE)\<close>, whose
  atom is quoted and is \<open>TRUE\<close>.
\<close>

theorem DEF_numeric_parameter:
  "execute example_host (Suc 0) False
     [Atom False ''DEF'', Atom False ''F'', List False [Atom False ''5''], List False []]
     initial_state =
   Some (Inr (Method False ''F'' False [Atom False ''5''] False [],
              initial_state\<lparr>memory := initial_memory(''F'' \<mapsto>
                Method False ''F'' False [Atom False ''5''] False [])\<rparr>)) \<and>
   \<not> isNaN_Number ''5'' \<and>
   execute example_host (Suc 0) False
     [Atom False ''DEF'', Atom False ''G'', List False [Atom True ''TRUE''], List False []]
     initial_state =
   Some (Inr (Method False ''G'' False [Atom True ''TRUE''] False [],
              initial_state\<lparr>memory := initial_memory(''G'' \<mapsto>
                Method False ''G'' False [Atom True ''TRUE''] False [])\<rparr>))"
  by (simp add: example_defs DEF_def)


end
